theory Spec2Isabelle
  imports Complex_Main "HOL-Library.AList" "HOL-Library.List_Lexorder" "HOL-Library.Char_ord"
begin

section \<open>Go values decoded from JSON\<close>

text \<open>
  \<^verbatim>\<open>encoding/json\<close> decodes into \<^verbatim>\<open>interface{}\<close> as one of: nil, bool, float64, string,
  \<^verbatim>\<open>[]interface{}\<close>, \<^verbatim>\<open>map[string]interface{}\<close>. A decoded number is a finite float64; the
  model carries its exact value as a rational. A Go map is an association list with
  distinct keys.
\<close>

datatype go_value =
    GoNil
  | GoBool bool
  | GoFloat64 rat
  | GoString string
  | GoSlice "go_value list"
  | GoMap "(string \<times> go_value) list"

type_synonym go_map = "(string \<times> go_value) list"

text \<open>A panic of the Go runtime.\<close>

datatype panic = SendOnClosedChannel | CloseOfClosedChannel | NegativeWaitGroupCounter

text \<open>
  The callback types of package tinpot (\<^verbatim>\<open>ActionResponse\<close>, \<^verbatim>\<open>ActionLogs\<close>). A callback
  acts on the state \<open>'s\<close> its closure captured; a nil map is \<open>None\<close>.
\<close>

type_synonym 's ActionResponse = "string \<Rightarrow> go_map option \<Rightarrow> 's \<Rightarrow> panic + 's"
type_synonym 's ActionLogs = "string \<Rightarrow> string \<Rightarrow> 's \<Rightarrow> panic + 's"

section \<open>Package tinpot: wire types\<close>

record MqttAction =
  Description :: string
  Group :: string
  Parameters :: "string list"
  TriggerTopic :: string

record MqttLogEntry =
  Timestamp :: string
  Level :: string
  Message :: string

record MqttResultResponse =
  Status :: string
  Result :: go_value
  Error :: string

section \<open>cmd/coordinator/mqttactions.go: handleResponse\<close>

text \<open>
  \<^verbatim>\<open>json.Unmarshal\<close> of the payload into an \<^verbatim>\<open>MqttResultResponse\<close> is the parameter
  \<open>unmarshal\<close> (\<open>None\<close> when it returns an error). A nil \<open>response\<close> is \<open>None\<close>.
\<close>

definition handleResponse ::
  "(string \<Rightarrow> MqttResultResponse option) \<Rightarrow> string \<Rightarrow> 's ActionResponse option \<Rightarrow> 's \<Rightarrow> panic + 's"
where
  "handleResponse unmarshal payload response s =
     (case unmarshal payload of
        None \<Rightarrow> Inr s
      | Some res \<Rightarrow>
          (case response of
             None \<Rightarrow> Inr s
           | Some resp \<Rightarrow>
               if Status res = ''SUCCESS'' then
                 resp '''' (Some (case Result res of
                                    GoMap m \<Rightarrow> m
                                  | v \<Rightarrow> [(''value'', v)])) s
               else resp (Error res) None s))"

text \<open>Whether the type assertion to \<^verbatim>\<open>map[string]interface{}\<close> succeeds.\<close>

fun is_object :: "go_value \<Rightarrow> bool" where
  "is_object (GoMap m) = True"
| "is_object v = False"

section \<open>Package strings\<close>

text \<open>\<^verbatim>\<open>strings.Split(s, sep)\<close> for a one-byte separator: \<^verbatim>\<open>Split("", "/")\<close> is \<^verbatim>\<open>[""]\<close>.\<close>

fun strings_Split :: "string \<Rightarrow> char \<Rightarrow> string list" where
  "strings_Split [] sep = [[]]"
| "strings_Split (c # cs) sep =
     (if c = sep then [] # strings_Split cs sep
      else (case strings_Split cs sep of
              [] \<Rightarrow> [[c]]
            | p # ps \<Rightarrow> (c # p) # ps))"

definition strings_HasPrefix :: "string \<Rightarrow> string \<Rightarrow> bool" where
  "strings_HasPrefix s pre = (take (length pre) s = pre)"

section \<open>cmd/coordinator/mqttactions.go: the catalog\<close>

text \<open>
  \<^verbatim>\<open>mqttActionManager.actions\<close>. The handler of the subscription to
  \<^verbatim>\<open>tinpot/actions/+\<close> takes the topic and the payload of the message;
  \<^verbatim>\<open>json.Unmarshal\<close> into a fresh \<^verbatim>\<open>MqttAction\<close> is the parameter \<open>unmarshal\<close>.
  The handler in src/coordinator/main.go has the same body. The \<^verbatim>\<open>log.Printf\<close> lines of
  the handler are left out.
\<close>

type_synonym catalog = "string \<rightharpoonup> MqttAction"

definition onActionAnnounced ::
  "(string \<Rightarrow> MqttAction option) \<Rightarrow> string \<Rightarrow> string \<Rightarrow> catalog \<Rightarrow> catalog"
where
  "onActionAnnounced unmarshal topic payload actions =
     (let parts = strings_Split topic CHR ''/'' in
      if length parts \<noteq> 3 then actions
      else
        let actionName = parts ! 2 in
        if length payload = 0 then actions(actionName := None)
        else (case unmarshal payload of
                None \<Rightarrow> actions
              | Some act \<Rightarrow> actions(actionName \<mapsto> act)))"

text \<open>The messages the broker delivers, in order, each a topic and a payload.\<close>

fun deliver :: "(string \<Rightarrow> MqttAction option) \<Rightarrow> (string \<times> string) list \<Rightarrow> catalog \<Rightarrow> catalog" where
  "deliver unmarshal [] actions = actions"
| "deliver unmarshal ((topic, payload) # msgs) actions =
     deliver unmarshal msgs (onActionAnnounced unmarshal topic payload actions)"

text \<open>
  \<^verbatim>\<open>GetAction\<close> returns nil for a name that is not in the map, and otherwise the
  trigger of an \<^verbatim>\<open>mqttActionExecution\<close> holding a copy of the entry: the closure is
  modelled by the entry it captured.
\<close>

definition GetAction :: "catalog \<Rightarrow> string \<Rightarrow> MqttAction option" where
  "GetAction actions name = actions name"

section \<open>Go channels\<close>

text \<open>
  A buffered channel: the queued values, oldest first, the capacity, and whether it has
  been closed. A send on a closed channel panics, also as a case of a \<^verbatim>\<open>select\<close> with a
  \<^verbatim>\<open>default\<close>; closing a closed channel panics; a receive takes the oldest queued value,
  and on an empty channel reports the close or blocks.
\<close>

record 'a chan =
  buf :: "'a list"
  cap :: nat
  closed :: bool

definition make_chan :: "nat \<Rightarrow> 'a chan" where
  "make_chan n = \<lparr>buf = [], cap = n, closed = False\<rparr>"

text \<open>
  \<^verbatim>\<open>select { case ch <- v: default: }\<close>: the result says whether the send case ran.
\<close>

definition try_send :: "'a \<Rightarrow> 'a chan \<Rightarrow> panic + (bool \<times> 'a chan)" where
  "try_send v ch =
     (if closed ch then Inl SendOnClosedChannel
      else if length (buf ch) < cap ch then Inr (True, ch\<lparr>buf := buf ch @ [v]\<rparr>)
      else Inr (False, ch))"

definition close_chan :: "'a chan \<Rightarrow> panic + 'a chan" where
  "close_chan ch = (if closed ch then Inl CloseOfClosedChannel else Inr (ch\<lparr>closed := True\<rparr>))"

datatype 'a received = Received 'a | ChanClosed | WouldBlock

definition recv :: "'a chan \<Rightarrow> 'a received \<times> 'a chan" where
  "recv ch =
     (case buf ch of
        v # vs \<Rightarrow> (Received v, ch\<lparr>buf := vs\<rparr>)
      | [] \<Rightarrow> (if closed ch then (ChanClosed, ch) else (WouldBlock, ch)))"

section \<open>cmd/coordinator/main.go: the execution registry\<close>

text \<open>
  A \<^verbatim>\<open>StreamEvent\<close> has a type and, as data, an \<^verbatim>\<open>MqttLogEntry\<close> or a map.
\<close>

datatype event_data = LogData MqttLogEntry | MapData go_map

record StreamEvent =
  Type :: string
  Data :: event_data

record ExecutionState =
  EventChan :: "StreamEvent chan"
  Done :: bool

text \<open>
  The coordinator process: the \<^verbatim>\<open>ExecutionState\<close> objects allocated so far (a pointer is
  an index of \<open>heap\<close>), the map \<^verbatim>\<open>executions\<close> from id to pointer, the lines written by
  \<^verbatim>\<open>log.Printf\<close>, the ids for which a goroutine sleeps a minute before
  \<^verbatim>\<open>removeExecution\<close>, and what \<^verbatim>\<open>time.Now().Format(time.RFC3339)\<close> returns at the moment.
\<close>

record coordinator =
  heap :: "ExecutionState list"
  executions :: "string \<rightharpoonup> nat"
  logged :: "string list"
  cleanups :: "string list"
  clock :: string

definition registerExecution :: "string \<Rightarrow> coordinator \<Rightarrow> nat \<times> coordinator" where
  "registerExecution eid co =
     (let state = length (heap co) in
      (state,
       co\<lparr>heap := heap co @ [\<lparr>EventChan = make_chan 1000, Done = False\<rparr>],
          executions := (executions co)(eid \<mapsto> state)\<rparr>))"

definition getExecution :: "string \<Rightarrow> coordinator \<Rightarrow> nat option" where
  "getExecution eid co = executions co eid"

definition removeExecution :: "string \<Rightarrow> coordinator \<Rightarrow> coordinator" where
  "removeExecution eid co = co\<lparr>executions := (executions co)(eid := None)\<rparr>"

text \<open>The channel of the object a pointer refers to, and its update in place.\<close>

definition chan_of :: "nat \<Rightarrow> coordinator \<Rightarrow> StreamEvent chan" where
  "chan_of state co = EventChan (heap co ! state)"

definition set_chan :: "nat \<Rightarrow> StreamEvent chan \<Rightarrow> coordinator \<Rightarrow> coordinator" where
  "set_chan state ch co = co\<lparr>heap := (heap co)[state := (heap co ! state)\<lparr>EventChan := ch\<rparr>]\<rparr>"

text \<open>
  The two closures of \<^verbatim>\<open>executeAction\<close>, over the pointer \<open>state\<close> and the id \<open>execID\<close>
  they capture.
\<close>

definition log_event :: "string \<Rightarrow> string \<Rightarrow> string \<Rightarrow> StreamEvent" where
  "log_event now level message =
     \<lparr>Type = ''log'', Data = LogData \<lparr>Timestamp = now, Level = level, Message = message\<rparr>\<rparr>"

definition logCallback :: "nat \<Rightarrow> string \<Rightarrow> coordinator ActionLogs" where
  "logCallback state execID level message co =
     (let event = log_event (clock co) level message in
      case try_send event (chan_of state co) of
        Inl p \<Rightarrow> Inl p
      | Inr (sent, ch) \<Rightarrow>
          if sent then Inr (set_chan state ch co)
          else Inr (co\<lparr>logged := logged co @ [''Dropped log for '' @ execID @ '' due to full buffer'']\<rparr>))"

definition complete_event :: "string \<Rightarrow> go_map option \<Rightarrow> StreamEvent" where
  "complete_event err res =
     (let success = (err = '''');
          status = (if \<not> success then ''FAILURE'' else ''SUCCESS'');
          data = [(''state'', GoString status), (''successful'', GoBool success)];
          data = (if success
                  then data @ [(''result'', (case res of None \<Rightarrow> GoNil | Some m \<Rightarrow> GoMap m))]
                  else data @ [(''error'', GoString err)])
      in \<lparr>Type = ''complete'', Data = MapData data\<rparr>)"

definition responseCallback :: "nat \<Rightarrow> string \<Rightarrow> coordinator ActionResponse" where
  "responseCallback state execID err res co =
     (case try_send (complete_event err res) (chan_of state co) of
        Inl p \<Rightarrow> Inl p
      | Inr (sent, ch) \<Rightarrow>
          (case close_chan ch of
             Inl p \<Rightarrow> Inl p
           | Inr ch' \<Rightarrow> Inr ((set_chan state ch' co)\<lparr>cleanups := cleanups co @ [execID]\<rparr>)))"

section \<open>cmd/coordinator/main.go: streamLogs\<close>

text \<open>
  What a handler writes: \<^verbatim>\<open>writeJSON\<close> of a status and a body, or \<^verbatim>\<open>http.Error\<close>. The
  bodies are the maps and structs the handlers encode.
\<close>

datatype json_body =
    Detail string
  | ExecutionResponse string string string string
  | SyncExecutionResponse string string string go_value

datatype http_response = JSON nat json_body | HttpError nat string

text \<open>
  A frame of the event stream is \<^verbatim>\<open>data: <JSON>\n\n\<close>, of the connected map or of an event.
\<close>

datatype sse_frame = ConnectedFrame string | EventFrame StreamEvent

text \<open>
  A running \<^verbatim>\<open>streamLogs\<close>: the pointer it holds, the frames written and flushed so far,
  and whether the handler has returned.
\<close>

record sse_conn =
  stream_state :: nat
  frames :: "sse_frame list"
  returned :: bool

text \<open>
  \<open>streamLogs\<close> up to its loop; \<open>flusher\<close> says whether the response writer is an
  \<^verbatim>\<open>http.Flusher\<close>.
\<close>

definition streamLogs :: "string \<Rightarrow> bool \<Rightarrow> coordinator \<Rightarrow> http_response + sse_conn" where
  "streamLogs execID flusher co =
     (case getExecution execID co of
        None \<Rightarrow> Inl (JSON 404 (Detail ''Execution not found''))
      | Some state \<Rightarrow>
          if \<not> flusher then Inl (HttpError 500 ''Streaming unsupported!'')
          else Inr \<lparr>stream_state = state, frames = [ConnectedFrame execID], returned = False\<rparr>)"

text \<open>
  One pass of the loop of \<open>streamLogs\<close>; \<open>ctx_done\<close> says that the \<^verbatim>\<open>select\<close> takes the
  case of the cancelled request context. An empty open channel blocks: nothing changes.
\<close>

definition streamLogs_select :: "bool \<Rightarrow> coordinator \<times> sse_conn \<Rightarrow> coordinator \<times> sse_conn" where
  "streamLogs_select ctx_done w =
     (let co = fst w; conn = snd w in
      if returned conn then w
      else if ctx_done then (co, conn\<lparr>returned := True\<rparr>)
      else (case recv (chan_of (stream_state conn) co) of
              (Received event, ch) \<Rightarrow>
                (set_chan (stream_state conn) ch co, conn\<lparr>frames := frames conn @ [EventFrame event]\<rparr>)
            | (ChanClosed, ch) \<Rightarrow> (co, conn\<lparr>returned := True\<rparr>)
            | (WouldBlock, ch) \<Rightarrow> w))"

text \<open>
  An execution as the coordinator sees it: calls of its two callbacks (a log call with the
  time read at the call) and passes of the loop of its stream handler, in any order. A
  panic in a callback ends the process. One stream handler is followed, from the moment
  it has written the connected frame; a handler that connects later has done nothing but
  write that frame later, so the steps before its first pass are the same.
\<close>

datatype step =
    LogCall string string string
  | ResponseCall string "go_map option"
  | StreamSelect bool

fun exec_step :: "nat \<Rightarrow> string \<Rightarrow> step \<Rightarrow> coordinator \<times> sse_conn \<Rightarrow> panic + coordinator \<times> sse_conn" where
  "exec_step state execID (LogCall now level message) (co, conn) =
     (case logCallback state execID level message (co\<lparr>clock := now\<rparr>) of
        Inl p \<Rightarrow> Inl p
      | Inr co' \<Rightarrow> Inr (co', conn))"
| "exec_step state execID (ResponseCall err res) (co, conn) =
     (case responseCallback state execID err res co of
        Inl p \<Rightarrow> Inl p
      | Inr co' \<Rightarrow> Inr (co', conn))"
| "exec_step state execID (StreamSelect ctx_done) (co, conn) = Inr (streamLogs_select ctx_done (co, conn))"

fun run :: "nat \<Rightarrow> string \<Rightarrow> step list \<Rightarrow> coordinator \<times> sse_conn \<Rightarrow> panic + coordinator \<times> sse_conn" where
  "run state execID [] w = Inr w"
| "run state execID (st # sts) w =
     (case exec_step state execID st w of
        Inl p \<Rightarrow> Inl p
      | Inr w' \<Rightarrow> run state execID sts w')"

text \<open>The events among the frames written, and the events of a given type in a list.\<close>

fun frame_events :: "sse_frame list \<Rightarrow> StreamEvent list" where
  "frame_events [] = []"
| "frame_events (ConnectedFrame x # fs) = frame_events fs"
| "frame_events (EventFrame e # fs) = e # frame_events fs"

definition of_type :: "string \<Rightarrow> StreamEvent list \<Rightarrow> StreamEvent list" where
  "of_type t evs = filter (\<lambda>e. Type e = t) evs"

text \<open>
  The events of an execution that were not dropped, in the order in which they were
  queued: those the stream handler has written, then those still in the channel. The
  stream handler of the execution holds the pointer to its state.
\<close>

definition history :: "nat \<Rightarrow> coordinator \<times> sse_conn \<Rightarrow> StreamEvent list" where
  "history state w = frame_events (frames (snd w)) @ buf (chan_of state (fst w))"

definition attached :: "nat \<Rightarrow> coordinator \<times> sse_conn \<Rightarrow> bool" where
  "attached state w = (state < length (heap (fst w)) \<and> stream_state (snd w) = state)"

text \<open>
  What can be observed of an execution after some steps: the events written to the
  stream, the events still queued, whether the channel is closed, whether the stream
  handler has returned, and the log of the coordinator; or the panic that ended the
  process.
\<close>

definition observe ::
  "nat \<Rightarrow> string \<Rightarrow> step list \<Rightarrow> coordinator \<times> sse_conn \<Rightarrow>
     panic + StreamEvent list \<times> StreamEvent list \<times> bool \<times> bool \<times> string list"
where
  "observe state execID steps w =
     (case run state execID steps w of
        Inl p \<Rightarrow> Inl p
      | Inr w' \<Rightarrow>
          Inr (frame_events (frames (snd w')), buf (chan_of state (fst w')),
               closed (chan_of state (fst w')), returned (snd w'), logged (fst w')))"

text \<open>The coordinator when it starts: \<^verbatim>\<open>executions\<close> is the empty map.\<close>

definition new_coordinator :: coordinator where
  "new_coordinator = \<lparr>heap = [], executions = Map.empty, logged = [], cleanups = [], clock = []\<rparr>"

section \<open>cmd/coordinator/mqttactions.go: trigger\<close>

record ExecutionRequest =
  ExecutionID :: string
  RequestParameters :: "go_map option"
  ResultTopic :: string
  LogTopic :: string

text \<open>
  What the coordinator asks of its MQTT client, in order: a subscription (topic, QoS)
  that registers a handler, a publication (topic, QoS, retained flag, the request whose
  JSON is the payload), an unsubscription, and \<^verbatim>\<open>Wait\<close> on the token of an operation
  before it (of the one just before it, unless said otherwise).
\<close>

datatype mqtt_op =
    Subscribe string nat
  | Publish string nat bool ExecutionRequest
  | Unsubscribe "string list"
  | TokenWait

definition resultTopicOf :: "string \<Rightarrow> string" where
  "resultTopicOf execID = ''tinpot/exec/'' @ execID @ ''/result''"

definition logTopicOf :: "string \<Rightarrow> string" where
  "logTopicOf execID = ''tinpot/exec/'' @ execID @ ''/log''"

text \<open>\<^verbatim>\<open>Closer(topics...).Close()\<close>: unsubscribe and wait.\<close>

definition closer_Close :: "string list \<Rightarrow> mqtt_op list" where
  "closer_Close topics = [Unsubscribe topics, TokenWait]"

definition responseWithErr :: "'s ActionResponse \<Rightarrow> string \<Rightarrow> 's \<Rightarrow> panic + 's" where
  "responseWithErr response err s = response err None s"

text \<open>
  The id \<open>trigger\<close> uses: the entry \<^verbatim>\<open>_execution_id\<close> of the parameters when it is a
  string, a new UUID (\<open>new_uuid\<close>) otherwise.
\<close>

definition trigger_execID :: "go_map \<Rightarrow> string \<Rightarrow> string" where
  "trigger_execID parameters new_uuid =
     (case map_of parameters ''_execution_id'' of
        Some (GoString eid) \<Rightarrow> eid
      | _ \<Rightarrow> new_uuid)"

text \<open>
  \<open>trigger\<close> returns the client operations it made and the state after the call of
  \<open>response\<close> it makes itself, when the publication fails with the error text
  \<open>publish_error\<close>. A nil callback is \<open>None\<close>. The handlers it registers are
  \<open>logHandler\<close> and \<open>resultHandler\<close> below.
\<close>

definition trigger ::
  "MqttAction \<Rightarrow> string \<Rightarrow> go_map \<Rightarrow> 's ActionResponse option \<Rightarrow> 's ActionLogs option \<Rightarrow>
     string option \<Rightarrow> 's \<Rightarrow> mqtt_op list \<times> (panic + 's)"
where
  "trigger action new_uuid parameters response logs publish_error s =
     (let execID = trigger_execID parameters new_uuid;
          actualParams = filter (\<lambda>(k, v). \<not> strings_HasPrefix k ''_'') parameters;
          resultTopic = resultTopicOf execID;
          logTopic = logTopicOf execID;
          subscribed = (if logs \<noteq> None then [Subscribe logTopic 0] else [])
                       @ [Subscribe resultTopic 1, TokenWait];
          req = \<lparr>ExecutionID = execID, RequestParameters = Some actualParams,
                 ResultTopic = resultTopic, LogTopic = logTopic\<rparr>;
          published = subscribed @ [Publish (TriggerTopic action) 1 False req, TokenWait]
      in case publish_error of
           None \<Rightarrow> (published, Inr s)
         | Some e \<Rightarrow>
             (published @ closer_Close [resultTopic, logTopic],
              (case response of
                 None \<Rightarrow> Inr s
               | Some resp \<Rightarrow> responseWithErr resp (''failed to publish request: '' @ e) s)))"

text \<open>The handler of the log topic; \<open>unmarshal\<close> decodes an \<^verbatim>\<open>MqttLogEntry\<close>.\<close>

definition logHandler ::
  "(string \<Rightarrow> MqttLogEntry option) \<Rightarrow> 's ActionLogs \<Rightarrow> string \<Rightarrow> 's \<Rightarrow> panic + 's"
where
  "logHandler unmarshal logs payload s =
     (case unmarshal payload of
        Some entry \<Rightarrow> logs (Level entry) (Message entry) s
      | None \<Rightarrow> Inr s)"

text \<open>
  The handler of the result topic: \<open>handleResponse\<close>, and the deferred
  \<^verbatim>\<open>closer.Close()\<close>, which runs also when the callback panics.
\<close>

definition resultHandler ::
  "(string \<Rightarrow> MqttResultResponse option) \<Rightarrow> 's ActionResponse option \<Rightarrow> string \<Rightarrow> string \<Rightarrow>
     's \<Rightarrow> mqtt_op list \<times> (panic + 's)"
where
  "resultHandler unmarshal response execID payload s =
     (closer_Close [resultTopicOf execID, logTopicOf execID],
      (case response of
         None \<Rightarrow> Inr s
       | Some resp \<Rightarrow> handleResponse unmarshal payload response s))"

section \<open>cmd/coordinator/main.go: executeAction\<close>

text \<open>
  The local variables of the synchronous branch: the callback stores the error and the
  result and calls \<^verbatim>\<open>wg.Done()\<close>, which panics on a counter that is zero already.
\<close>

record sync_wait =
  finalError :: string
  finalResult :: "go_map option"
  wg :: nat

definition sync_callback :: "sync_wait ActionResponse" where
  "sync_callback err res s =
     (if wg s = 0 then Inl NegativeWaitGroupCounter
      else Inr \<lparr>finalError = err, finalResult = res, wg = wg s - 1\<rparr>)"

text \<open>
  The request: the name in the path, the decoded body (\<open>None\<close> when decoding fails,
  \<open>Some None\<close> when the body has no parameters), the UUID \<^verbatim>\<open>uuid.New()\<close> returns, and
  the mode. What happens after: whether the publication fails, and the payload of the
  result message the broker delivers, if it ever delivers one. The handler's response is
  \<open>None\<close> when it never returns: \<^verbatim>\<open>wg.Wait()\<close> has no deadline. The handler puts the id
  into the parameters, so \<open>trigger\<close> draws no UUID of its own; the id stands in its place.
\<close>

definition executeAction ::
  "(string \<Rightarrow> MqttResultResponse option) \<Rightarrow> catalog \<Rightarrow> string \<Rightarrow> go_map option option \<Rightarrow> string \<Rightarrow>
     bool \<Rightarrow> string option \<Rightarrow> string option \<Rightarrow> coordinator \<Rightarrow>
     http_response option \<times> mqtt_op list \<times> (panic + coordinator)"
where
  "executeAction unmarshal actions actionName body execID syncMode publish_error result_payload co =
     (case GetAction actions actionName of
        None \<Rightarrow> (Some (JSON 404 (Detail (''Action not found: '' @ actionName))), [], Inr co)
      | Some action \<Rightarrow>
          (case body of
             None \<Rightarrow> (Some (JSON 400 (Detail ''Invalid request body'')), [], Inr co)
           | Some req \<Rightarrow>
               let params = (case req of None \<Rightarrow> [] | Some m \<Rightarrow> m);
                   params = AList.update ''_execution_id'' (GoString execID) params
               in
               if syncMode then
                 let (ops, r) = trigger action execID params (Some sync_callback) None publish_error
                                  \<lparr>finalError = '''', finalResult = None, wg = 1\<rparr>;
                     (ops', r') =
                        (case (r, publish_error, result_payload) of
                           (Inr s, None, Some payload) \<Rightarrow>
                              resultHandler unmarshal (Some sync_callback) execID payload s
                         | _ \<Rightarrow> ([], r))
                 in (case r' of
                       Inl p \<Rightarrow> (None, ops @ ops', Inl p)
                     | Inr s \<Rightarrow>
                         if wg s = 0 then
                           (Some (JSON 200 (SyncExecutionResponse execID actionName
                                    (if finalError s \<noteq> '''' then ''FAILURE'' else ''SUCCESS'')
                                    (case finalResult s of None \<Rightarrow> GoNil | Some m \<Rightarrow> GoMap m))),
                            ops @ ops', Inr co)
                         else (None, ops @ ops', Inr co))
               else
                 let (state, co1) = registerExecution execID co;
                     (ops, r) = trigger action execID params
                                  (Some (responseCallback state execID))
                                  (Some (logCallback state execID)) publish_error co1
                 in (Some (JSON 200 (ExecutionResponse execID actionName ''submitted''
                             (''/api/executions/'' @ execID @ ''/stream''))),
                     ops, r)))"

section \<open>src/coordinator/main.go: executeAction\<close>

text \<open>
  The older coordinator keeps no registry. Its handler subscribes to the result topic,
  publishes, and in the synchronous mode selects between the first decoded result and
  \<^verbatim>\<open>time.After(30 * time.Second)\<close>. \<open>arrival\<close> is that result and the time, in
  milliseconds after the select began, at which it is in the channel; when both cases
  are ready at once, \<open>result_first\<close> is the choice of the select. Of a catalog entry the
  handler reads the trigger topic only. The deferred unsubscription is the last
  operation.
\<close>

definition executeAction_main ::
  "catalog \<Rightarrow> string \<Rightarrow> go_map option option \<Rightarrow> string \<Rightarrow> bool \<Rightarrow> string option \<Rightarrow>
     (nat \<times> MqttResultResponse) option \<Rightarrow> bool \<Rightarrow> http_response \<times> mqtt_op list"
where
  "executeAction_main actions actionName body execID syncMode publish_error arrival result_first =
     (case actions actionName of
        None \<Rightarrow> (JSON 404 (Detail (''Action not found: '' @ actionName)), [])
      | Some act \<Rightarrow>
          (case body of
             None \<Rightarrow> (JSON 400 (Detail ''Invalid request body''), [])
           | Some req \<Rightarrow>
               let resultTopic = ''tinpot/exec/'' @ execID @ ''/result'';
                   logTopic = ''tinpot/exec/'' @ execID @ ''/log'';
                   payload = \<lparr>ExecutionID = execID,
                              RequestParameters = req,
                              ResultTopic = resultTopic, LogTopic = logTopic\<rparr>;
                   ops = [Subscribe resultTopic 1, TokenWait,
                          Publish (TriggerTopic act) 1 False payload, TokenWait];
                   deferred = [Unsubscribe [resultTopic]]
               in
               if publish_error \<noteq> None then
                 (JSON 500 (Detail ''Failed to publish execution request''), ops @ deferred)
               else if syncMode then
                 (case arrival of
                    None \<Rightarrow> (JSON 504 (Detail ''Execution timed out''), ops @ deferred)
                  | Some (t, res) \<Rightarrow>
                      if t < 30000 \<or> (t = 30000 \<and> result_first) then
                        (JSON 200 (SyncExecutionResponse execID actionName (Status res) (Result res)),
                         ops @ deferred)
                      else (JSON 504 (Detail ''Execution timed out''), ops @ deferred))
               else
                 (JSON 200 (ExecutionResponse execID actionName ''submitted''
                    (''/api/executions/'' @ execID @ ''/stream'')),
                  ops @ deferred)))"

section \<open>src/coordinator/main.go: streamLogs\<close>

text \<open>
  The older stream handler keeps no registry and looks nothing up. For any id it makes a
  channel of 10 frames, subscribes to the log topic at QoS 0 and to the result topic at
  QoS 1, waits on the two tokens (the two waits are on the tokens of the two
  subscriptions, in that order), and writes and flushes the connected frame, which gin
  sends with status 200. Its frames are the connected map, a log entry under
  \<^verbatim>\<open>{"type": "log", "data": ...}\<close>, and the map of a completion.
\<close>

datatype main_frame = MainConnected string | MainLog MqttLogEntry | MainComplete go_map

record main_stream =
  msgChan :: "main_frame chan"
  main_status :: nat
  main_ops :: "mqtt_op list"
  main_written :: "main_frame list"
  main_returned :: bool

definition streamLogs_main :: "string \<Rightarrow> main_stream" where
  "streamLogs_main execID =
     (let logTopic = ''tinpot/exec/'' @ execID @ ''/log'';
          resultTopic = ''tinpot/exec/'' @ execID @ ''/result''
      in \<lparr>msgChan = make_chan 10, main_status = 200,
          main_ops = [Subscribe logTopic 0, Subscribe resultTopic 1, TokenWait, TokenWait],
          main_written = [MainConnected execID], main_returned = False\<rparr>)"

text \<open>
  The two handlers. Each ignores the error of \<^verbatim>\<open>json.Unmarshal\<close>: \<open>logEntry\<close> and
  \<open>result\<close> are the values the variables hold after the call. Each sends without
  blocking; the result handler then closes the channel.
\<close>

definition logHandler_main :: "MqttLogEntry \<Rightarrow> main_stream \<Rightarrow> panic + main_stream" where
  "logHandler_main logEntry st =
     (case try_send (MainLog logEntry) (msgChan st) of
        Inl p \<Rightarrow> Inl p
      | Inr (sent, ch) \<Rightarrow> Inr (st\<lparr>msgChan := ch\<rparr>))"

definition resultHandler_main :: "MqttResultResponse \<Rightarrow> main_stream \<Rightarrow> panic + main_stream" where
  "resultHandler_main result st =
     (let sseData = [(''type'', GoString ''complete''), (''state'', GoString (Status result)),
                     (''successful'', GoBool (Status result = ''SUCCESS''))];
          sseData = (if Status result = ''SUCCESS''
                     then sseData @ [(''result'', Result result)]
                     else sseData @ [(''error'', GoString (Error result))])
      in case try_send (MainComplete sseData) (msgChan st) of
           Inl p \<Rightarrow> Inl p
         | Inr (sent, ch) \<Rightarrow>
             (case close_chan ch of
                Inl p \<Rightarrow> Inl p
              | Inr ch' \<Rightarrow> Inr (st\<lparr>msgChan := ch'\<rparr>)))"

text \<open>
  One pass of the loop; \<open>client_gone\<close> says that the select takes the case of the closed
  connection. On return the deferred function unsubscribes from both topics.
\<close>

definition streamLogs_main_select :: "string \<Rightarrow> bool \<Rightarrow> main_stream \<Rightarrow> main_stream" where
  "streamLogs_main_select execID client_gone st =
     (let deferred = [Unsubscribe [''tinpot/exec/'' @ execID @ ''/log''],
                      Unsubscribe [''tinpot/exec/'' @ execID @ ''/result'']]
      in
      if main_returned st then st
      else if client_gone then st\<lparr>main_ops := main_ops st @ deferred, main_returned := True\<rparr>
      else (case recv (msgChan st) of
              (Received msg, ch) \<Rightarrow> st\<lparr>msgChan := ch, main_written := main_written st @ [msg]\<rparr>
            | (ChanClosed, ch) \<Rightarrow> st\<lparr>main_ops := main_ops st @ deferred, main_returned := True\<rparr>
            | (WouldBlock, ch) \<Rightarrow> st))"

section \<open>The workers\<close>

subsection \<open>Parameter conversion (cmd/worker/pyactions.go and src/worker/main.go)\<close>

text \<open>
  The Python objects the conversion can build, and those the claim names. A Python string
  is held as its UTF-8 bytes.
\<close>

datatype py_object =
    PyUnicode string
  | PyLong int
  | PyFloat rat
  | PyBool bool
  | PyNone
  | PyList "py_object list"
  | PyDict "(py_object \<times> py_object) list"

text \<open>
  \<^verbatim>\<open>cpy3.PyUnicode_FromString\<close> hands the Go string to C as a NUL-terminated string, so
  CPython reads it up to its first NUL byte, and decodes what it read as strict UTF-8
  (no overlong forms, no surrogates, nothing above U+10FFFF). The result is \<open>None\<close> when
  CPython returns NULL, which the workers do not check. A string decoded from JSON is
  valid UTF-8, and so is each of its prefixes that ends before a NUL byte.
\<close>

definition c_string :: "string \<Rightarrow> string" where
  "c_string u = takeWhile (\<lambda>c. c \<noteq> CHR 0x00) u"

definition in_range :: "char \<Rightarrow> nat \<Rightarrow> nat \<Rightarrow> bool" where
  "in_range c lo hi = (lo \<le> of_char c \<and> (of_char c :: nat) \<le> hi)"

fun valid_utf8 :: "string \<Rightarrow> bool" where
  "valid_utf8 [] = True"
| "valid_utf8 (a # s) =
     (if in_range a 0x00 0x7F then valid_utf8 s
      else if in_range a 0xC2 0xDF then
        (case s of
           b # s' \<Rightarrow> in_range b 0x80 0xBF \<and> valid_utf8 s'
         | _ \<Rightarrow> False)
      else if in_range a 0xE0 0xEF then
        (case s of
           b # c # s' \<Rightarrow>
             in_range b (if in_range a 0xE0 0xE0 then 0xA0 else 0x80)
                        (if in_range a 0xED 0xED then 0x9F else 0xBF)
             \<and> in_range c 0x80 0xBF \<and> valid_utf8 s'
         | _ \<Rightarrow> False)
      else if in_range a 0xF0 0xF4 then
        (case s of
           b # c # d # s' \<Rightarrow>
             in_range b (if in_range a 0xF0 0xF0 then 0x90 else 0x80)
                        (if in_range a 0xF4 0xF4 then 0x8F else 0xBF)
             \<and> in_range c 0x80 0xBF \<and> in_range d 0x80 0xBF \<and> valid_utf8 s'
         | _ \<Rightarrow> False)
      else False)"

definition PyUnicode_FromString :: "string \<Rightarrow> py_object option" where
  "PyUnicode_FromString u =
     (if valid_utf8 (c_string u) then Some (PyUnicode (c_string u)) else None)"

text \<open>
  A finite float64 is \<open>m * 2 ^ e\<close> for a significand \<open>m\<close> of at most 53 bits and an
  exponent \<open>e\<close> from -1074 to 971; \<open>GoFloat64\<close> holds such a value when it stands for a
  decoded number.
\<close>

definition float64_val :: "int \<Rightarrow> int \<Rightarrow> rat" where
  "float64_val m e = (if 0 \<le> e then of_int m * 2 ^ nat e else of_int m / 2 ^ nat (- e))"

text \<open>
  \<^verbatim>\<open>int(val)\<close> of a float64 truncates toward zero when the result fits 64 bits; beyond
  that Go leaves the result to the implementation, and amd64 gives the least int64.
  \<^verbatim>\<open>float64(n)\<close> of a truncated float64 is exact.
\<close>

definition go_int :: "rat \<Rightarrow> int" where
  "go_int val =
     (if - (2 ^ 63) \<le> val \<and> val < 2 ^ 63
      then (if 0 \<le> val then \<lfloor>val\<rfloor> else \<lceil>val\<rceil>)
      else - (2 ^ 63))"

definition go_float64 :: "int \<Rightarrow> rat" where
  "go_float64 n = of_int n"

text \<open>
  \<^verbatim>\<open>fmt.Sprintf("%v", val)\<close>. The text of a float64 (the shortest \<^verbatim>\<open>%g\<close>) is the
  parameter \<open>fmt_float\<close>. A map prints its entries sorted by key, byte by byte, whatever
  the order of the association list.
\<close>

fun join_space :: "string list \<Rightarrow> string" where
  "join_space [] = []"
| "join_space [s] = s"
| "join_space (s # ss) = s @ '' '' @ join_space ss"

fun Sprintf_v :: "(rat \<Rightarrow> string) \<Rightarrow> go_value \<Rightarrow> string" where
  "Sprintf_v fmt_float GoNil = ''<nil>''"
| "Sprintf_v fmt_float (GoBool b) = (if b then ''true'' else ''false'')"
| "Sprintf_v fmt_float (GoFloat64 x) = fmt_float x"
| "Sprintf_v fmt_float (GoString s) = s"
| "Sprintf_v fmt_float (GoSlice vs) = ''['' @ join_space (map (Sprintf_v fmt_float) vs) @ '']''"
| "Sprintf_v fmt_float (GoMap m) =
     ''map['' @ join_space (map (\<lambda>kt. fst kt @ '':'' @ snd kt)
                  (sort_key fst (map (\<lambda>kv. (fst kv, Sprintf_v fmt_float (snd kv))) m))) @ '']''"

text \<open>The type switch of the loop over the parameters, in the order of its cases.\<close>

fun convert_param :: "(rat \<Rightarrow> string) \<Rightarrow> go_value \<Rightarrow> py_object option" where
  "convert_param fmt_float (GoString val) = PyUnicode_FromString val"
| "convert_param fmt_float (GoFloat64 val) =
     (if go_float64 (go_int val) = val then Some (PyLong (go_int val)) else Some (PyFloat val))"
| "convert_param fmt_float (GoBool val) = (if val then Some (PyBool True) else Some (PyBool False))"
| "convert_param fmt_float val = PyUnicode_FromString (Sprintf_v fmt_float val)"

text \<open>
  The keyword arguments passed to the action callable: the loop sets, for each parameter
  in the order in which the range over the Go map yields them (the order of the list),
  the item whose key is \<^verbatim>\<open>PyUnicode_FromString\<close> of the name and whose value is the
  conversion; a key that is in the dict already gets the new value. The result is \<open>None\<close>
  when a NULL object reaches \<^verbatim>\<open>PyDict_SetItem\<close>.
\<close>

definition PyDict_SetItem ::
  "(py_object \<times> py_object) list \<Rightarrow> py_object \<Rightarrow> py_object \<Rightarrow> (py_object \<times> py_object) list"
where
  "PyDict_SetItem p key val = AList.update key val p"

fun set_params ::
  "(rat \<Rightarrow> string) \<Rightarrow> go_map \<Rightarrow> (py_object \<times> py_object) list \<Rightarrow> (py_object \<times> py_object) list option"
where
  "set_params fmt_float [] kwargs = Some kwargs"
| "set_params fmt_float ((k, v) # parameters) kwargs =
     (case (PyUnicode_FromString k, convert_param fmt_float v) of
        (Some keyStr, Some valPy) \<Rightarrow> set_params fmt_float parameters (PyDict_SetItem kwargs keyStr valPy)
      | _ \<Rightarrow> None)"

definition kwargs_of :: "(rat \<Rightarrow> string) \<Rightarrow> go_map \<Rightarrow> (py_object \<times> py_object) list option" where
  "kwargs_of fmt_float parameters = set_params fmt_float parameters []"

subsection \<open>Trigger topics\<close>

text \<open>cmd/worker/main.go.\<close>

record ActionInfo =
  Name :: string
  InfoDescription :: string
  InfoGroup :: string
  InfoParameters :: "string list"

definition triggerTopicForAction :: "string \<Rightarrow> string" where
  "triggerTopicForAction actionName = ''tinpot/actions/'' @ actionName @ ''/trigger''"

definition announceTopicForAction :: "string \<Rightarrow> string" where
  "announceTopicForAction actionName = ''tinpot/actions/'' @ actionName"

definition toMqttAction :: "ActionInfo \<Rightarrow> MqttAction" where
  "toMqttAction act =
     \<lparr>Description = InfoDescription act, Group = InfoGroup act,
      Parameters = InfoParameters act, TriggerTopic = triggerTopicForAction (Name act)\<rparr>"

text \<open>
  src/worker/main.go: the \<^verbatim>\<open>Action\<close> that \<^verbatim>\<open>discoverActions\<close> stores for a registry entry
  (its name, description and group, and the parameter map built from it), which
  \<^verbatim>\<open>announceActions\<close> publishes retained on \<^verbatim>\<open>tinpot/actions/<name>\<close> and to whose trigger
  topic \<^verbatim>\<open>subscribeToActions\<close> subscribes.
\<close>

record WorkerAction =
  ActionName :: string
  ActionGroup :: string
  ActionDescription :: string
  ActionParameters :: go_map
  ActionTriggerTopic :: string

definition discoverActions_entry :: "string \<Rightarrow> string \<Rightarrow> string \<Rightarrow> go_map \<Rightarrow> WorkerAction" where
  "discoverActions_entry name desc grp params =
     \<lparr>ActionName = name, ActionGroup = grp, ActionDescription = desc,
      ActionParameters = params, ActionTriggerTopic = ''tinpot/ops/'' @ name @ ''/run''\<rparr>"

section \<open>The result handler of the coordinator\<close>

text \<open>
  C10. A decoded result with status SUCCESS reaches the response callback with an empty
  error string and, as result, the decoded object itself when the result is a JSON object
  and the one-entry map from "value" to the result when it is anything else; a decoded
  result with any other status reaches the callback with its error string and a nil
  result.
\<close>

theorem handleResponse_delivers:
  "unmarshal payload = Some res \<Longrightarrow>
     (Status res = ''SUCCESS'' \<and> \<not> is_object (Result res) \<longrightarrow>
        handleResponse unmarshal payload (Some resp) s = resp '''' (Some [(''value'', Result res)]) s) \<and>
     (Status res = ''SUCCESS'' \<and> Result res = GoMap m \<longrightarrow>
        handleResponse unmarshal payload (Some resp) s = resp '''' (Some m) s) \<and>
     (Status res \<noteq> ''SUCCESS'' \<longrightarrow>
        handleResponse unmarshal payload (Some resp) s = resp (Error res) None s)"
  by (cases "Result res") (simp_all add: handleResponse_def)

theorem handleResponse_delivers_witness:
  "handleResponse (\<lambda>p. Some \<lparr>Status = ''SUCCESS'', Result = GoFloat64 42, Error = ''''\<rparr>) ''x''
       (Some sync_callback) \<lparr>finalError = '''', finalResult = None, wg = 1\<rparr>
     = Inr \<lparr>finalError = '''', finalResult = Some [(''value'', GoFloat64 42)], wg = 0\<rparr>
   \<and> handleResponse (\<lambda>p. Some \<lparr>Status = ''SUCCESS'', Result = GoMap [(''files_deleted'', GoFloat64 42)], Error = ''''\<rparr>) ''x''
       (Some sync_callback) \<lparr>finalError = '''', finalResult = None, wg = 1\<rparr>
     = Inr \<lparr>finalError = '''', finalResult = Some [(''files_deleted'', GoFloat64 42)], wg = 0\<rparr>
   \<and> handleResponse (\<lambda>p. Some \<lparr>Status = ''FAILURE'', Result = GoNil, Error = ''boom''\<rparr>) ''x''
       (Some sync_callback) \<lparr>finalError = '''', finalResult = None, wg = 1\<rparr>
     = Inr \<lparr>finalError = ''boom'', finalResult = None, wg = 0\<rparr>"
  using handleResponse_delivers [where unmarshal = "\<lambda>p. Some \<lparr>Status = ''SUCCESS'', Result = GoFloat64 42, Error = ''''\<rparr>"
           and payload = "''x''" and resp = sync_callback and s = "\<lparr>finalError = '''', finalResult = None, wg = 1\<rparr>"]
        handleResponse_delivers [where unmarshal = "\<lambda>p. Some \<lparr>Status = ''SUCCESS'', Result = GoMap [(''files_deleted'', GoFloat64 42)], Error = ''''\<rparr>"
           and payload = "''x''" and m = "[(''files_deleted'', GoFloat64 42)]" and resp = sync_callback
           and s = "\<lparr>finalError = '''', finalResult = None, wg = 1\<rparr>"]
        handleResponse_delivers [where unmarshal = "\<lambda>p. Some \<lparr>Status = ''FAILURE'', Result = GoNil, Error = ''boom''\<rparr>"
           and payload = "''x''" and resp = sync_callback and s = "\<lparr>finalError = '''', finalResult = None, wg = 1\<rparr>"]
  by (simp add: sync_callback_def)

section \<open>The catalog mirrors the announcements\<close>

lemma strings_Split_no_sep: "sep \<notin> set s \<Longrightarrow> strings_Split s sep = [s]"
  by (induction s) auto

lemma onActionAnnounced_other:
  "length (strings_Split topic CHR ''/'') = 3 \<longrightarrow> strings_Split topic CHR ''/'' ! 2 \<noteq> name \<Longrightarrow>
     onActionAnnounced unmarshal topic payload actions name = actions name"
  by (auto simp: onActionAnnounced_def Let_def split: option.splits)

lemma deliver_other:
  "\<forall>m \<in> set msgs. length (strings_Split (fst m) CHR ''/'') = 3 \<longrightarrow>
       strings_Split (fst m) CHR ''/'' ! 2 \<noteq> name \<Longrightarrow>
     deliver unmarshal msgs actions name = actions name"
proof (induction msgs arbitrary: actions)
  case Nil
  then show ?case by simp
next
  case (Cons m msgs)
  obtain topic payload where m: "m = (topic, payload)" by (cases m)
  from Cons.prems have "onActionAnnounced unmarshal topic payload actions name = actions name"
    by (intro onActionAnnounced_other) (simp add: m)
  moreover from Cons have "deliver unmarshal msgs (onActionAnnounced unmarshal topic payload actions) name
      = onActionAnnounced unmarshal topic payload actions name"
    by simp
  ultimately show ?case by (simp add: m)
qed

lemma deliver_append:
  "deliver unmarshal (xs @ ys) actions = deliver unmarshal ys (deliver unmarshal xs actions)"
  by (induction xs arbitrary: actions) auto

lemma onActionAnnounced_withdraw:
  "CHR ''/'' \<notin> set name \<Longrightarrow>
     onActionAnnounced unmarshal (announceTopicForAction name) [] actions = actions(name := None)"
  by (simp add: onActionAnnounced_def announceTopicForAction_def strings_Split_no_sep)

lemma onActionAnnounced_upsert:
  "CHR ''/'' \<notin> set name \<Longrightarrow> payload \<noteq> [] \<Longrightarrow> unmarshal payload = Some act \<Longrightarrow>
     onActionAnnounced unmarshal (announceTopicForAction name) payload actions = actions(name \<mapsto> act)"
  by (simp add: onActionAnnounced_def announceTopicForAction_def strings_Split_no_sep)

text \<open>A payload that does not decode leaves the catalog as it is.\<close>

lemma onActionAnnounced_malformed:
  "payload \<noteq> [] \<Longrightarrow> unmarshal payload = None \<Longrightarrow>
     onActionAnnounced unmarshal topic payload actions = actions"
  by (simp add: onActionAnnounced_def Let_def)

text \<open>
  C7. For a name without a slash, whose announcements arrive on
  \<^verbatim>\<open>tinpot/actions/<name>\<close>: an announcement with an empty payload removes the name from
  the catalog and one whose payload decodes stores the decoded action under the name,
  leaving every other name as it was; and after any sequence of messages,
  \<open>GetAction\<close> of the name is the decoded payload of the most recent announcement for
  the name, or nil when that payload is empty.
\<close>

theorem catalog_mirrors_announcements:
  assumes name: "CHR ''/'' \<notin> set name"
    and decodes: "payload = [] \<or> unmarshal payload \<noteq> None"
    and latest: "\<forall>m \<in> set post. length (strings_Split (fst m) CHR ''/'') = 3 \<longrightarrow>
                   strings_Split (fst m) CHR ''/'' ! 2 \<noteq> name"
  shows "onActionAnnounced unmarshal (announceTopicForAction name) payload actions =
           (if payload = [] then actions(name := None) else actions(name := unmarshal payload))
         \<and> GetAction (deliver unmarshal (pre @ [(announceTopicForAction name, payload)] @ post) actions) name =
           (if payload = [] then None else unmarshal payload)"
proof -
  have step: "onActionAnnounced unmarshal (announceTopicForAction name) payload a =
           (if payload = [] then a(name := None) else a(name := unmarshal payload))" for a
    using name decodes
    by (auto simp: onActionAnnounced_withdraw onActionAnnounced_upsert)
  have "deliver unmarshal (pre @ [(announceTopicForAction name, payload)] @ post) actions name =
          onActionAnnounced unmarshal (announceTopicForAction name) payload (deliver unmarshal pre actions) name"
    using deliver_other [OF latest] by (simp add: deliver_append)
  then show ?thesis
    by (simp add: step GetAction_def)
qed

theorem catalog_mirrors_announcements_witness:
  "GetAction (deliver (\<lambda>p. if p = ''{}'' then Some \<lparr>Description = [], Group = [], Parameters = [], TriggerTopic = ''t''\<rparr> else None)
      ([(''tinpot/actions/a'', [])] @ [(announceTopicForAction ''a'', ''{}'')] @ [(''tinpot/actions/b'', []), (''x/y'', ''{'')])
      Map.empty) ''a''
     = Some \<lparr>Description = [], Group = [], Parameters = [], TriggerTopic = ''t''\<rparr>"
proof -
  let ?u = "\<lambda>p. if p = ''{}'' then Some \<lparr>Description = [], Group = [], Parameters = [], TriggerTopic = ''t''\<rparr> else None"
  have a: "CHR ''/'' \<notin> set ''a''" by simp
  have b: "''{}'' = [] \<or> ?u ''{}'' \<noteq> None" by simp
  have c: "\<forall>m \<in> set [(''tinpot/actions/b'', []), (''x/y'', ''{'')].
             length (strings_Split (fst m) CHR ''/'') = 3 \<longrightarrow> strings_Split (fst m) CHR ''/'' ! 2 \<noteq> ''a''"
    by simp
  have "GetAction (deliver ?u ([(''tinpot/actions/a'', [])] @ [(announceTopicForAction ''a'', ''{}'')]
            @ [(''tinpot/actions/b'', []), (''x/y'', ''{'')]) Map.empty) ''a''
          = (if ''{}'' = [] then None else ?u ''{}'')"
    using catalog_mirrors_announcements [where unmarshal = ?u and payload = "''{}''" and name = "''a''", OF a b c]
    by (rule conjunct2)
  then show ?thesis by simp
qed

section \<open>Parameter conversion in the workers\<close>

lemma go_int_of_int:
  "- (2 ^ 63) \<le> n \<Longrightarrow> n < 2 ^ 63 \<Longrightarrow> go_int (of_int n) = n"
proof -
  assume lo: "- (2 ^ 63) \<le> n" and hi: "n < 2 ^ 63"
  have "(of_int (- (2 ^ 63)) :: rat) \<le> of_int n" using lo by (simp only: of_int_le_iff)
  then have lo': "- (2 ^ 63) \<le> (of_int n :: rat)" by simp
  have "(of_int n :: rat) < of_int (2 ^ 63)" using hi by (simp only: of_int_less_iff)
  then have hi': "(of_int n :: rat) < 2 ^ 63" by simp
  show ?thesis using lo' hi' by (simp add: go_int_def)
qed

lemma go_float64_go_int_fraction:
  "of_int \<lfloor>val\<rfloor> \<noteq> val \<Longrightarrow> go_float64 (go_int val) \<noteq> val"
proof
  assume nonint: "of_int \<lfloor>val\<rfloor> \<noteq> val" and eq: "go_float64 (go_int val) = val"
  from eq have "val = of_int (go_int val)" by (simp add: go_float64_def)
  then have "val \<in> \<int>" by (metis Ints_of_int)
  then have "of_int \<lfloor>val\<rfloor> = val" by (auto simp: Ints_def)
  with nonint show False by simp
qed

lemma c_string_no_nul: "CHR 0x00 \<notin> set u \<Longrightarrow> c_string u = u"
  by (auto simp: c_string_def takeWhile_eq_all_conv)

lemma PyUnicode_FromString_plain:
  "CHR 0x00 \<notin> set u \<Longrightarrow> valid_utf8 u \<Longrightarrow> PyUnicode_FromString u = Some (PyUnicode u)"
  by (simp add: PyUnicode_FromString_def c_string_no_nul)

lemma PyDict_SetItem_fresh:
  "key \<notin> fst ` set p \<Longrightarrow> PyDict_SetItem p key val = p @ [(key, val)]"
  by (induction p) (auto simp: PyDict_SetItem_def)

lemma set_params_fresh:
  assumes "distinct (map fst ps)"
    and "\<forall>k \<in> set (map fst ps). CHR 0x00 \<notin> set k \<and> valid_utf8 k \<and> PyUnicode k \<notin> fst ` set kwargs"
    and "map (convert_param fmt_float) (map snd ps) = map Some vals"
  shows "set_params fmt_float ps kwargs = Some (kwargs @ zip (map PyUnicode (map fst ps)) vals)"
  using assms
proof (induction ps arbitrary: kwargs vals)
  case Nil
  then show ?case by simp
next
  case (Cons p ps)
  obtain k v where p: "p = (k, v)" by (cases p)
  from Cons.prems(3) obtain val vals' where vals: "vals = val # vals'"
    and val: "convert_param fmt_float v = Some val"
    and rest: "map (convert_param fmt_float) (map snd ps) = map Some vals'"
    by (cases vals) (auto simp: p)
  from Cons.prems(2) have key: "PyUnicode_FromString k = Some (PyUnicode k)"
    and fresh: "PyUnicode k \<notin> fst ` set kwargs"
    by (simp_all add: p PyUnicode_FromString_plain)
  have set: "PyDict_SetItem kwargs (PyUnicode k) val = kwargs @ [(PyUnicode k, val)]"
    by (rule PyDict_SetItem_fresh [OF fresh])
  from Cons.prems(1) have d: "distinct (map fst ps)" and kn: "k \<notin> set (map fst ps)"
    by (simp_all add: p)
  have "\<forall>k' \<in> set (map fst ps). CHR 0x00 \<notin> set k' \<and> valid_utf8 k'
          \<and> PyUnicode k' \<notin> fst ` set (kwargs @ [(PyUnicode k, val)])"
    using Cons.prems(2) kn by (auto simp: p)
  from Cons.IH [OF d this rest]
  show ?case by (simp add: p key val set vals)
qed

text \<open>Names that are cut at a NUL byte can meet: the later parameter then takes the key.\<close>

lemma kwargs_of_cut_names_collide:
  "kwargs_of fmt_float [([CHR ''a'', CHR 0x00, CHR ''x''], GoBool True), ([CHR ''a'', CHR 0x00, CHR ''y''], GoBool False)]
     = Some [(PyUnicode ''a'', PyBool False)]"
  by (simp add: kwargs_of_def PyUnicode_FromString_def c_string_def in_range_def PyDict_SetItem_def)

lemma convert_param_string_only:
  "convert_param fmt_float v \<noteq> Some PyNone \<and> convert_param fmt_float v \<noteq> Some (PyList l)
   \<and> convert_param fmt_float v \<noteq> Some (PyDict d)"
  by (cases v) (auto simp: PyUnicode_FromString_def)

text \<open>
  C4, as the code has it. A string becomes the Python string of its bytes before the first
  NUL byte (the whole string when it has none); a number whose float64 value is
  integer-valued and lies between \<open>- 2 ^ 63\<close> and \<open>2 ^ 63 - 1\<close> becomes a Python integer;
  a number whose float64 value is not integer-valued becomes a Python float; a bool
  becomes a Python bool; null, arrays and objects become the Python string of their
  \<^verbatim>\<open>%v\<close> text, cut at a NUL byte likewise (\<^verbatim>\<open><nil>\<close> for null, the entries of an object in
  key order). No value becomes None, a list or a mapping. For parameter names without a
  NUL byte, the keyword arguments are the conversions of the parameters under their
  names.
\<close>

theorem convert_param_cases:
  "(CHR 0x00 \<notin> set s \<and> valid_utf8 s \<longrightarrow> convert_param fmt_float (GoString s) = Some (PyUnicode s))
   \<and> (valid_utf8 (c_string s') \<longrightarrow> convert_param fmt_float (GoString s') = Some (PyUnicode (c_string s')))
   \<and> (\<bar>m\<bar> < 2 ^ 53 \<and> - 1074 \<le> e \<and> e \<le> 971 \<and> float64_val m e = of_int n
        \<and> - (2 ^ 63) \<le> n \<and> n < 2 ^ 63 \<longrightarrow>
        convert_param fmt_float (GoFloat64 (float64_val m e)) = Some (PyLong n))
   \<and> (\<bar>m'\<bar> < 2 ^ 53 \<and> - 1074 \<le> e' \<and> e' \<le> 971
        \<and> of_int \<lfloor>float64_val m' e'\<rfloor> \<noteq> float64_val m' e' \<longrightarrow>
        convert_param fmt_float (GoFloat64 (float64_val m' e')) = Some (PyFloat (float64_val m' e')))
   \<and> convert_param fmt_float (GoBool b) = Some (PyBool b)
   \<and> convert_param fmt_float GoNil = Some (PyUnicode ''<nil>'')
   \<and> convert_param fmt_float (GoSlice vs) =
        PyUnicode_FromString (''['' @ join_space (map (Sprintf_v fmt_float) vs) @ '']'')
   \<and> (distinct (map fst mp) \<longrightarrow>
        convert_param fmt_float (GoMap mp) =
          PyUnicode_FromString (''map['' @ join_space (map (\<lambda>kt. fst kt @ '':'' @ snd kt)
             (sort_key fst (map (\<lambda>kv. (fst kv, Sprintf_v fmt_float (snd kv))) mp))) @ '']''))
   \<and> convert_param fmt_float v \<noteq> Some PyNone \<and> convert_param fmt_float v \<noteq> Some (PyList l)
   \<and> convert_param fmt_float v \<noteq> Some (PyDict d)
   \<and> (distinct (map fst ps) \<and> (\<forall>k \<in> set (map fst ps). CHR 0x00 \<notin> set k \<and> valid_utf8 k)
        \<and> map (convert_param fmt_float) (map snd ps) = map Some vals \<longrightarrow>
        kwargs_of fmt_float ps = Some (zip (map PyUnicode (map fst ps)) vals))"
proof -
  have str: "CHR 0x00 \<notin> set s \<and> valid_utf8 s \<longrightarrow> convert_param fmt_float (GoString s) = Some (PyUnicode s)"
    by (simp add: PyUnicode_FromString_plain)
  have cut: "valid_utf8 (c_string s') \<longrightarrow> convert_param fmt_float (GoString s') = Some (PyUnicode (c_string s'))"
    by (simp add: PyUnicode_FromString_def)
  have int: "\<bar>m\<bar> < 2 ^ 53 \<and> - 1074 \<le> e \<and> e \<le> 971 \<and> float64_val m e = of_int n
        \<and> - (2 ^ 63) \<le> n \<and> n < 2 ^ 63 \<longrightarrow>
        convert_param fmt_float (GoFloat64 (float64_val m e)) = Some (PyLong n)"
    using go_int_of_int [of n] by (simp add: go_float64_def)
  have frac: "\<bar>m'\<bar> < 2 ^ 53 \<and> - 1074 \<le> e' \<and> e' \<le> 971
        \<and> of_int \<lfloor>float64_val m' e'\<rfloor> \<noteq> float64_val m' e' \<longrightarrow>
        convert_param fmt_float (GoFloat64 (float64_val m' e')) = Some (PyFloat (float64_val m' e'))"
    using go_float64_go_int_fraction [of "float64_val m' e'"] by simp
  have nil: "convert_param fmt_float GoNil = Some (PyUnicode ''<nil>'')"
    by (simp add: PyUnicode_FromString_def c_string_def in_range_def)
  have kw: "distinct (map fst ps) \<and> (\<forall>k \<in> set (map fst ps). CHR 0x00 \<notin> set k \<and> valid_utf8 k)
        \<and> map (convert_param fmt_float) (map snd ps) = map Some vals \<longrightarrow>
        kwargs_of fmt_float ps = Some (zip (map PyUnicode (map fst ps)) vals)"
    using set_params_fresh [of ps "[]" fmt_float vals] by (simp add: kwargs_of_def)
  from str cut int frac nil kw convert_param_string_only [of fmt_float v l d]
  show ?thesis by simp
qed

theorem convert_param_cases_witness:
  "convert_param (\<lambda>x. []) (GoString ''abc'') = Some (PyUnicode ''abc'')
   \<and> convert_param (\<lambda>x. []) (GoString [CHR ''a'', CHR 0x00, CHR ''b'']) = Some (PyUnicode ''a'')
   \<and> convert_param (\<lambda>x. []) (GoFloat64 (float64_val 5 0)) = Some (PyLong 5)
   \<and> convert_param (\<lambda>x. []) (GoFloat64 (float64_val 5 (- 1))) = Some (PyFloat (5 / 2))
   \<and> convert_param (\<lambda>x. ''1'') (GoMap [(''b'', GoFloat64 1), (''a'', GoNil)]) = Some (PyUnicode ''map[a:<nil> b:1]'')
   \<and> kwargs_of (\<lambda>x. []) [(''days'', GoFloat64 (float64_val 5 0)), (''name'', GoString ''abc'')]
       = Some [(PyUnicode ''days'', PyLong 5), (PyUnicode ''name'', PyUnicode ''abc'')]"
proof -
  have s1: "CHR 0x00 \<notin> set ''abc'' \<and> valid_utf8 ''abc''" by (simp add: in_range_def)
  have s2: "valid_utf8 (c_string [CHR ''a'', CHR 0x00, CHR ''b''])"
    and c2: "c_string [CHR ''a'', CHR 0x00, CHR ''b''] = ''a''"
    by (simp_all add: c_string_def in_range_def)
  have f1: "\<bar>5 :: int\<bar> < 2 ^ 53 \<and> - 1074 \<le> (0 :: int) \<and> (0 :: int) \<le> 971 \<and> float64_val 5 0 = of_int 5
        \<and> - (2 ^ 63) \<le> (5 :: int) \<and> (5 :: int) < 2 ^ 63"
    by (simp add: float64_val_def)
  have v2: "float64_val 5 (- 1) = 5 / 2" by (simp add: float64_val_def)
  have "\<lfloor>5 / 2 :: rat\<rfloor> = 2" by linarith
  then have f2: "\<bar>5 :: int\<bar> < 2 ^ 53 \<and> - 1074 \<le> (- 1 :: int) \<and> (- 1 :: int) \<le> 971
        \<and> of_int \<lfloor>float64_val 5 (- 1)\<rfloor> \<noteq> float64_val 5 (- 1)"
    by (simp add: v2)
  have mp: "distinct (map fst [(''b'', GoFloat64 1), (''a'', GoNil)])" by simp
  have ps: "distinct (map fst [(''days'', GoFloat64 (float64_val 5 0)), (''name'', GoString ''abc'')])
        \<and> (\<forall>k \<in> set (map fst [(''days'', GoFloat64 (float64_val 5 0)), (''name'', GoString ''abc'')]).
              CHR 0x00 \<notin> set k \<and> valid_utf8 k)
        \<and> map (convert_param (\<lambda>x. [])) (map snd [(''days'', GoFloat64 (float64_val 5 0)), (''name'', GoString ''abc'')])
            = map Some [PyLong 5, PyUnicode ''abc'']"
    by (simp add: in_range_def float64_val_def go_int_def go_float64_def PyUnicode_FromString_def c_string_def)
  note inst1 = convert_param_cases [where s = "''abc''" and s' = "[CHR ''a'', CHR 0x00, CHR ''b'']"
      and m = 5 and e = 0 and n = 5 and m' = 5 and e' = "- 1" and fmt_float = "\<lambda>x. []"
      and ps = "[(''days'', GoFloat64 (float64_val 5 0)), (''name'', GoString ''abc'')]"
      and vals = "[PyLong 5, PyUnicode ''abc'']"]
  note inst2 = convert_param_cases [where mp = "[(''b'', GoFloat64 1), (''a'', GoNil)]" and fmt_float = "\<lambda>x. ''1''"]
  have m2: "convert_param (\<lambda>x. ''1'') (GoMap [(''b'', GoFloat64 1), (''a'', GoNil)]) = Some (PyUnicode ''map[a:<nil> b:1]'')"
    using inst2 mp by (simp add: PyUnicode_FromString_def c_string_def in_range_def)
  from inst1 s1 s2 f1 f2 ps have
    "convert_param (\<lambda>x. []) (GoString ''abc'') = Some (PyUnicode ''abc'')"
    "convert_param (\<lambda>x. []) (GoString [CHR ''a'', CHR 0x00, CHR ''b'']) = Some (PyUnicode (c_string [CHR ''a'', CHR 0x00, CHR ''b'']))"
    "convert_param (\<lambda>x. []) (GoFloat64 (float64_val 5 0)) = Some (PyLong 5)"
    "convert_param (\<lambda>x. []) (GoFloat64 (float64_val 5 (- 1))) = Some (PyFloat (float64_val 5 (- 1)))"
    "kwargs_of (\<lambda>x. []) [(''days'', GoFloat64 (float64_val 5 0)), (''name'', GoString ''abc'')]
       = Some (zip (map PyUnicode (map fst [(''days'', GoFloat64 (float64_val 5 0)), (''name'', GoString ''abc'')])) [PyLong 5, PyUnicode ''abc''])"
    by blast+
  with m2 show ?thesis by (simp add: c2 v2)
qed

text \<open>
  The claim as stated fails at null: the conversion gives the string \<^verbatim>\<open><nil>\<close>, not None;
  and an array and an object become strings.
\<close>

theorem convert_param_null_counterexample:
  "convert_param (\<lambda>x. []) GoNil = Some (PyUnicode ''<nil>'')
   \<and> convert_param (\<lambda>x. []) GoNil \<noteq> Some PyNone
   \<and> convert_param (\<lambda>x. ''1'') (GoSlice [GoFloat64 1, GoString ''a'']) = Some (PyUnicode ''[1 a]'')
   \<and> convert_param (\<lambda>x. ''1'') (GoMap [(''k'', GoFloat64 1)]) = Some (PyUnicode ''map[k:1]'')"
  by (simp add: PyUnicode_FromString_def c_string_def in_range_def)

section \<open>Trigger topics of the workers\<close>

lemma toMqttAction_trigger_topic:
  "TriggerTopic (toMqttAction act) = ''tinpot/actions/'' @ Name act @ ''/trigger''"
  by (simp add: toMqttAction_def triggerTopicForAction_def)

text \<open>
  C8. The worker of src/worker/main.go stores and announces, for every action, the trigger
  topic \<^verbatim>\<open>tinpot/ops/<name>/run\<close>, which is not the topic \<^verbatim>\<open>tinpot/actions/<name>/trigger\<close> of
  the convention; the worker of cmd/worker (\<open>toMqttAction\<close>) follows the convention.
\<close>

theorem discoverActions_trigger_topic:
  "ActionTriggerTopic (discoverActions_entry name desc grp params) = ''tinpot/ops/'' @ name @ ''/run''
   \<and> ActionTriggerTopic (discoverActions_entry name desc grp params) \<noteq> ''tinpot/actions/'' @ name @ ''/trigger''
   \<and> ActionTriggerTopic (discoverActions_entry ''clean_cache'' desc grp params) = ''tinpot/ops/clean_cache/run''"
  by (simp add: discoverActions_entry_def)

section \<open>Dispatch: subscriptions, publication and the response\<close>

lemma trigger_execID_injected:
  "trigger_execID (AList.update ''_execution_id'' (GoString execID) params) new_uuid = execID"
  by (simp add: trigger_execID_def update_conv')

lemma trigger_ops:
  "fst (trigger action new_uuid parameters response logs publish_error s) =
     (if logs = None then [] else [Subscribe (logTopicOf (trigger_execID parameters new_uuid)) 0])
     @ [Subscribe (resultTopicOf (trigger_execID parameters new_uuid)) 1, TokenWait,
        Publish (TriggerTopic action) 1 False
          \<lparr>ExecutionID = trigger_execID parameters new_uuid,
           RequestParameters = Some (filter (\<lambda>(k, v). \<not> strings_HasPrefix k ''_'') parameters),
           ResultTopic = resultTopicOf (trigger_execID parameters new_uuid),
           LogTopic = logTopicOf (trigger_execID parameters new_uuid)\<rparr>,
        TokenWait]
     @ (case publish_error of
          None \<Rightarrow> []
        | Some e \<Rightarrow> closer_Close [resultTopicOf (trigger_execID parameters new_uuid),
                                   logTopicOf (trigger_execID parameters new_uuid)])"
  by (simp add: trigger_def Let_def split: option.splits)

text \<open>
  C3, as the code has it. \<open>trigger\<close> subscribes to the result topic at QoS 1 and waits
  for the token of that subscription, and only then publishes the request, at QoS 1 and
  not retained, to the trigger topic of the action. It subscribes to the log topic only
  when a log callback is given, at QoS 0, before the publication and without a wait on
  that token. The handler of src/coordinator/main.go subscribes to the result topic at
  QoS 1, waits, and publishes; it makes no subscription to the log topic.
\<close>

theorem result_subscription_before_publish:
  "(\<exists>req rest.
      fst (trigger action new_uuid parameters response logs publish_error s) =
        (if logs = None then [] else [Subscribe (logTopicOf (trigger_execID parameters new_uuid)) 0])
        @ [Subscribe (resultTopicOf (trigger_execID parameters new_uuid)) 1, TokenWait,
           Publish (TriggerTopic action) 1 False req, TokenWait] @ rest
      \<and> ResultTopic req = resultTopicOf (trigger_execID parameters new_uuid)
      \<and> LogTopic req = logTopicOf (trigger_execID parameters new_uuid)
      \<and> rest = (case publish_error of
                   None \<Rightarrow> []
                 | Some e \<Rightarrow> [Unsubscribe [ResultTopic req, LogTopic req], TokenWait]))
   \<and> (\<exists>req rest.
        snd (executeAction_main (actions(actionName \<mapsto> action)) actionName (Some body) execID syncMode
               publish_error arrival result_first) =
          [Subscribe (''tinpot/exec/'' @ execID @ ''/result'') 1, TokenWait,
           Publish (TriggerTopic action) 1 False req, TokenWait] @ rest
        \<and> rest = [Unsubscribe [''tinpot/exec/'' @ execID @ ''/result'']])"
  by (auto simp: trigger_ops closer_Close_def executeAction_main_def Let_def split: option.splits)

text \<open>
  The claim as stated fails for an asynchronous dispatch of an action: the log topic is
  subscribed at QoS 0, not 1, and the only wait before the publication is on the token of
  the result subscription.
\<close>

theorem log_subscription_counterexample:
  "fst (trigger \<lparr>Description = [], Group = [], Parameters = [], TriggerTopic = ''tinpot/actions/a/trigger''\<rparr>
          ''u'' [(''_execution_id'', GoString ''x''), (''days'', GoFloat64 5)]
          (Some (responseCallback 0 ''x'')) (Some (logCallback 0 ''x'')) None
          \<lparr>heap = [\<lparr>EventChan = make_chan 1000, Done = False\<rparr>], executions = [''x'' \<mapsto> 0],
           logged = [], cleanups = [], clock = []\<rparr>)
     = [Subscribe ''tinpot/exec/x/log'' 0,
        Subscribe ''tinpot/exec/x/result'' 1, TokenWait,
        Publish ''tinpot/actions/a/trigger'' 1 False
          \<lparr>ExecutionID = ''x'', RequestParameters = Some [(''days'', GoFloat64 5)],
           ResultTopic = ''tinpot/exec/x/result'', LogTopic = ''tinpot/exec/x/log''\<rparr>,
        TokenWait]"
  by (simp add: trigger_def Let_def trigger_execID_def resultTopicOf_def logTopicOf_def strings_HasPrefix_def)

text \<open>
  C6. In both coordinators, a request that names an action the catalog does not hold is
  answered with status 404 and the body \<^verbatim>\<open>{"detail": "Action not found: <name>"}\<close>, the
  MQTT client is asked for nothing (no subscription, no publication), and the registry is
  unchanged; in either mode and whatever the body.
\<close>

theorem unknown_action_404:
  "(GetAction actions actionName = None \<longrightarrow>
      executeAction unmarshal actions actionName body execID syncMode publish_error result_payload co =
        (Some (JSON 404 (Detail (''Action not found: '' @ actionName))), [], Inr co))
   \<and> (actions actionName = None \<longrightarrow>
      executeAction_main actions actionName body execID syncMode publish_error arrival result_first =
        (JSON 404 (Detail (''Action not found: '' @ actionName)), []))"
  by (simp add: executeAction_def executeAction_main_def)

theorem unknown_action_404_witness:
  "executeAction (\<lambda>p. None) Map.empty ''does_not_exist'' (Some None) ''x'' False None None
       \<lparr>heap = [], executions = Map.empty, logged = [], cleanups = [], clock = []\<rparr>
     = (Some (JSON 404 (Detail ''Action not found: does_not_exist'')), [],
        Inr \<lparr>heap = [], executions = Map.empty, logged = [], cleanups = [], clock = []\<rparr>)
   \<and> executeAction_main Map.empty ''does_not_exist'' (Some None) ''x'' True None None False
     = (JSON 404 (Detail ''Action not found: does_not_exist''), [])"
  using unknown_action_404 [where actions = Map.empty and actionName = "''does_not_exist''"
          and unmarshal = "\<lambda>p. None" and body = "Some None" and execID = "''x''" and syncMode = False
          and publish_error = None and result_payload = None
          and co = "\<lparr>heap = [], executions = Map.empty, logged = [], cleanups = [], clock = []\<rparr>"]
        unknown_action_404 [where actions = Map.empty and actionName = "''does_not_exist''"
          and body = "Some None" and execID = "''x''" and syncMode = True
          and publish_error = None and arrival = None and result_first = False]
  by (simp add: GetAction_def)

text \<open>
  The synchronous mode of src/coordinator/main.go has the deadline: status 200 with the
  result that arrives within 30 seconds, status 504 otherwise.
\<close>

lemma executeAction_main_deadline:
  "fst (executeAction_main (actions(actionName \<mapsto> action)) actionName (Some body) execID True None
          arrival result_first) =
     (case arrival of
        None \<Rightarrow> JSON 504 (Detail ''Execution timed out'')
      | Some (t, res) \<Rightarrow>
          if t < 30000 \<or> t = 30000 \<and> result_first
          then JSON 200 (SyncExecutionResponse execID actionName (Status res) (Result res))
          else JSON 504 (Detail ''Execution timed out''))"
  by (simp add: executeAction_main_def Let_def split: option.splits)

text \<open>
  The synchronous mode of cmd/coordinator/main.go answers a decoded result with status
  200, the id, the name, the status and the result.
\<close>

lemma executeAction_sync_result:
  "unmarshal payload = Some res \<Longrightarrow>
   fst (executeAction unmarshal (actions(actionName \<mapsto> action)) actionName (Some body) execID True
          None (Some payload) co) =
     Some (JSON 200 (SyncExecutionResponse execID actionName
        (if Status res = ''SUCCESS'' \<or> Error res = [] then ''SUCCESS'' else ''FAILURE'')
        (if Status res = ''SUCCESS''
         then GoMap (case Result res of GoMap m \<Rightarrow> m | v \<Rightarrow> [(''value'', v)])
         else GoNil)))"
  by (simp add: executeAction_def GetAction_def trigger_def Let_def resultHandler_def
       handleResponse_def sync_callback_def)

text \<open>
  C5. In cmd/coordinator/main.go the synchronous mode has no deadline: when the
  publication succeeds and no result message is ever delivered, the handler never returns;
  and no request to this handler, in either mode, is answered with status 504.
\<close>

theorem executeAction_sync_no_deadline:
  "fst (executeAction unmarshal (actions(actionName \<mapsto> action)) actionName (Some body) execID True
          None None co) = None
   \<and> fst (executeAction unmarshal actions' actionName' body' execID' syncMode publish_error result_payload co')
       \<noteq> Some (JSON 504 b)"
proof -
  have "fst (executeAction unmarshal actions' actionName' body' execID' syncMode publish_error result_payload co')
       \<noteq> Some (JSON 504 b)"
    by (auto simp: executeAction_def Let_def split: option.splits prod.splits sum.splits if_splits)
  then show ?thesis
    by (simp add: executeAction_def GetAction_def trigger_def Let_def)
qed

section \<open>Executions: the event queue and the stream\<close>

lemma chan_of_set_chan [simp]:
  "state < length (heap co) \<Longrightarrow> chan_of state (set_chan state ch co) = ch"
  by (simp add: chan_of_def set_chan_def)

lemma set_chan_fields [simp]:
  "length (heap (set_chan state ch co)) = length (heap co)"
  "logged (set_chan state ch co) = logged co"
  "executions (set_chan state ch co) = executions co"
  "cleanups (set_chan state ch co) = cleanups co"
  "clock (set_chan state ch co) = clock co"
  by (simp_all add: set_chan_def)

lemma chan_of_fields [simp]:
  "chan_of state (co\<lparr>logged := l\<rparr>) = chan_of state co"
  "chan_of state (co\<lparr>clock := t\<rparr>) = chan_of state co"
  "chan_of state (co\<lparr>cleanups := cl\<rparr>) = chan_of state co"
  "chan_of state (co\<lparr>executions := ex\<rparr>) = chan_of state co"
  by (simp_all add: chan_of_def)

lemma frame_events_append [simp]:
  "frame_events (fs @ gs) = frame_events fs @ frame_events gs"
  by (induction fs rule: frame_events.induct) auto

lemma of_type_simps [simp]:
  "of_type t [] = []"
  "of_type t (e # es) = (if Type e = t then e # of_type t es else of_type t es)"
  "of_type t (xs @ ys) = of_type t xs @ of_type t ys"
  by (simp_all add: of_type_def)

lemma event_types [simp]:
  "Type (log_event now level message) = ''log''"
  "Type (complete_event err res) = ''complete''"
  by (simp_all add: log_event_def complete_event_def Let_def)

lemma logCallback_effect:
  assumes "state < length (heap co)"
  shows "logCallback state execID level message co =
           (let ch = chan_of state co in
            if closed ch then Inl SendOnClosedChannel
            else if length (buf ch) < cap ch
              then Inr (set_chan state (ch\<lparr>buf := buf ch @ [log_event (clock co) level message]\<rparr>) co)
              else Inr (co\<lparr>logged := logged co @ [''Dropped log for '' @ execID @ '' due to full buffer'']\<rparr>))"
  by (simp add: logCallback_def try_send_def Let_def)

lemma responseCallback_effect:
  "responseCallback state execID err res co =
           (let ch = chan_of state co in
            if closed ch then Inl SendOnClosedChannel
            else Inr ((set_chan state
                        (ch\<lparr>buf := (if length (buf ch) < cap ch then buf ch @ [complete_event err res] else buf ch),
                            closed := True\<rparr>) co)\<lparr>cleanups := cleanups co @ [execID]\<rparr>))"
  by (simp add: responseCallback_def try_send_def close_chan_def Let_def)

text \<open>What a step that returns changes, in terms of what can be observed.\<close>

lemma LogCall_obs:
  assumes "attached state w" and "exec_step state execID (LogCall now level message) w = Inr w'"
  shows "attached state w' \<and> \<not> closed (chan_of state (fst w)) \<and> \<not> closed (chan_of state (fst w'))
         \<and> cap (chan_of state (fst w')) = cap (chan_of state (fst w)) \<and> snd w' = snd w
         \<and> (if length (buf (chan_of state (fst w))) < cap (chan_of state (fst w))
             then buf (chan_of state (fst w')) = buf (chan_of state (fst w)) @ [log_event now level message]
                  \<and> logged (fst w') = logged (fst w)
             else buf (chan_of state (fst w')) = buf (chan_of state (fst w))
                  \<and> logged (fst w') = logged (fst w) @ [''Dropped log for '' @ execID @ '' due to full buffer''])"
proof -
  obtain co conn where w: "w = (co, conn)" by (cases w)
  from assms(1) have valid: "state < length (heap (co\<lparr>clock := now\<rparr>))"
    by (simp add: attached_def w)
  show ?thesis
    using assms unfolding w
    by (auto simp: attached_def logCallback_effect [OF valid] Let_def split: if_splits)
qed

lemma ResponseCall_obs:
  assumes "attached state w" and "exec_step state execID (ResponseCall err res) w = Inr w'"
  shows "attached state w' \<and> \<not> closed (chan_of state (fst w)) \<and> closed (chan_of state (fst w'))
         \<and> cap (chan_of state (fst w')) = cap (chan_of state (fst w)) \<and> snd w' = snd w
         \<and> logged (fst w') = logged (fst w)
         \<and> buf (chan_of state (fst w')) =
             (if length (buf (chan_of state (fst w))) < cap (chan_of state (fst w))
              then buf (chan_of state (fst w)) @ [complete_event err res]
              else buf (chan_of state (fst w)))"
proof -
  obtain co conn where w: "w = (co, conn)" by (cases w)
  show ?thesis
    using assms unfolding w
    by (auto simp: attached_def responseCallback_effect Let_def split: if_splits)
qed

lemma StreamSelect_obs:
  assumes "attached state w" and "exec_step state execID (StreamSelect ctx_done) w = Inr w'"
  shows "attached state w' \<and> closed (chan_of state (fst w')) = closed (chan_of state (fst w))
         \<and> cap (chan_of state (fst w')) = cap (chan_of state (fst w))
         \<and> logged (fst w') = logged (fst w)
         \<and> history state w' = history state w
         \<and> (\<exists>evs. frames (snd w') = frames (snd w) @ map EventFrame evs)"
proof -
  obtain co conn where w: "w = (co, conn)" by (cases w)
  show ?thesis
    using assms unfolding w
    by (auto simp: attached_def history_def streamLogs_select_def recv_def Let_def
          split: if_splits list.splits intro: exI [of _ "[]"] exI [of _ "[e]" for e])
qed

lemma producer_panics:
  assumes "attached state w" and "closed (chan_of state (fst w))"
  shows "exec_step state execID (LogCall now level message) w = Inl SendOnClosedChannel"
    and "exec_step state execID (ResponseCall err res) w = Inl SendOnClosedChannel"
proof -
  obtain co conn where w: "w = (co, conn)" by (cases w)
  from assms(1) have valid: "state < length (heap (co\<lparr>clock := now\<rparr>))"
    by (simp add: attached_def w)
  show "exec_step state execID (LogCall now level message) w = Inl SendOnClosedChannel"
    using assms unfolding w by (simp add: logCallback_effect [OF valid])
  show "exec_step state execID (ResponseCall err res) w = Inl SendOnClosedChannel"
    using assms unfolding w by (simp add: responseCallback_effect)
qed

lemma producer_returns:
  assumes "attached state w" and "\<not> closed (chan_of state (fst w))"
  shows "\<exists>w'. exec_step state execID (LogCall now level message) w = Inr w'"
    and "\<exists>w'. exec_step state execID (ResponseCall err res) w = Inr w'"
proof -
  obtain co conn where w: "w = (co, conn)" by (cases w)
  from assms(1) have valid: "state < length (heap (co\<lparr>clock := now\<rparr>))"
    by (simp add: attached_def w)
  show "\<exists>w'. exec_step state execID (LogCall now level message) w = Inr w'"
    using assms unfolding w by (simp add: logCallback_effect [OF valid] Let_def)
  show "\<exists>w'. exec_step state execID (ResponseCall err res) w = Inr w'"
    using assms unfolding w by (simp add: responseCallback_effect Let_def)
qed

lemma run_append:
  "run state execID (xs @ ys) w =
     (case run state execID xs w of Inl p \<Rightarrow> Inl p | Inr w' \<Rightarrow> run state execID ys w')"
  by (induction xs arbitrary: w) (auto split: sum.splits)

lemma of_type_butlast: "of_type t xs = [] \<Longrightarrow> of_type t (butlast xs) = []"
  by (auto simp: of_type_def filter_empty_conv dest: in_set_butlastD)

lemma at_most_one_of_type:
  assumes "of_type t (butlast xs) = []"
  shows "length (of_type t xs) \<le> 1"
proof (cases "xs = []")
  case True
  then show ?thesis by simp
next
  case False
  then have "xs = butlast xs @ [last xs]" by simp
  then have "of_type t xs = of_type t (butlast xs) @ of_type t [last xs]"
    by (metis of_type_simps(3))
  with assms show ?thesis by simp
qed

text \<open>
  The invariant of an execution: no complete event stands before the last event of the
  history, and none at all while the channel is open.
\<close>

lemma step_invariant:
  assumes "attached state w" and "exec_step state execID st w = Inr w'"
    and "of_type ''complete'' (butlast (history state w)) = []"
    and "\<not> closed (chan_of state (fst w)) \<longrightarrow> of_type ''complete'' (history state w) = []"
  shows "attached state w' \<and> cap (chan_of state (fst w')) = cap (chan_of state (fst w))
         \<and> of_type ''complete'' (butlast (history state w')) = []
         \<and> (\<not> closed (chan_of state (fst w')) \<longrightarrow> of_type ''complete'' (history state w') = [])
         \<and> (closed (chan_of state (fst w')) \<longleftrightarrow>
              closed (chan_of state (fst w)) \<or> (\<exists>err res. st = ResponseCall err res))"
proof (cases st)
  case (LogCall now level message)
  from LogCall_obs [OF assms(1) assms(2) [unfolded LogCall]] assms(4)
  show ?thesis
    by (auto simp: LogCall history_def of_type_butlast split: if_splits)
next
  case (ResponseCall err res)
  from ResponseCall_obs [OF assms(1) assms(2) [unfolded ResponseCall]] assms(4)
  show ?thesis
    by (auto simp: ResponseCall history_def of_type_butlast butlast_append split: if_splits)
next
  case (StreamSelect ctx_done)
  from StreamSelect_obs [OF assms(1) assms(2) [unfolded StreamSelect]] assms(3,4)
  show ?thesis
    by (auto simp: StreamSelect)
qed

lemma run_invariant:
  assumes "attached state w" and "run state execID steps w = Inr w'"
    and "of_type ''complete'' (butlast (history state w)) = []"
    and "\<not> closed (chan_of state (fst w)) \<longrightarrow> of_type ''complete'' (history state w) = []"
  shows "attached state w' \<and> cap (chan_of state (fst w')) = cap (chan_of state (fst w))
         \<and> of_type ''complete'' (butlast (history state w')) = []
         \<and> (\<not> closed (chan_of state (fst w')) \<longrightarrow> of_type ''complete'' (history state w') = [])
         \<and> (closed (chan_of state (fst w')) \<longleftrightarrow>
              closed (chan_of state (fst w)) \<or> (\<exists>err res. ResponseCall err res \<in> set steps))"
  using assms
proof (induction steps arbitrary: w)
  case Nil
  then show ?case by simp
next
  case (Cons st steps)
  from Cons.prems(2) obtain w1 where s1: "exec_step state execID st w = Inr w1"
    and r1: "run state execID steps w1 = Inr w'"
    by (auto split: sum.splits)
  note inv1 = step_invariant [OF Cons.prems(1) s1 Cons.prems(3) Cons.prems(4)]
  from inv1 have a: "attached state w1"
    and b: "of_type ''complete'' (butlast (history state w1)) = []"
    and c: "\<not> closed (chan_of state (fst w1)) \<longrightarrow> of_type ''complete'' (history state w1) = []"
    by simp_all
  from Cons.IH [OF a r1 b c] inv1 show ?case by auto
qed

text \<open>The state right after dispatch, with the stream handler connected.\<close>

lemma dispatched_init:
  assumes "registerExecution execID co0 = (state, co1)" and "streamLogs execID True co1 = Inr conn0"
  shows "attached state (co1, conn0)" and "chan_of state co1 = make_chan 1000"
    and "frames conn0 = [ConnectedFrame execID]" and "\<not> returned conn0"
    and "history state (co1, conn0) = []"
  using assms
  by (auto simp: registerExecution_def streamLogs_def getExecution_def attached_def Let_def
        chan_of_def history_def make_chan_def nth_append)

text \<open>Once the cleanup goroutine has removed the id, a stream request is answered 404.\<close>

lemma removed_execution_404:
  "streamLogs eid flusher (removeExecution eid co) = Inl (JSON 404 (Detail ''Execution not found''))"
  by (simp add: streamLogs_def getExecution_def removeExecution_def)

lemma returned_stays:
  "returned (snd w) \<Longrightarrow> run state execID (replicate n (StreamSelect d)) w = Inr w"
proof (induction n)
  case 0
  then show ?case by simp
next
  case (Suc n)
  obtain co conn where w: "w = (co, conn)" by (cases w)
  from Suc.prems have "exec_step state execID (StreamSelect d) w = Inr w"
    by (simp add: w streamLogs_select_def Let_def)
  with Suc show ?case by simp
qed

lemma drain:
  assumes "attached state w" and "closed (chan_of state (fst w))" and "\<not> returned (snd w)"
    and "length (buf (chan_of state (fst w))) \<le> k"
  shows "\<exists>w'. run state execID (replicate (Suc k) (StreamSelect False)) w = Inr w'
           \<and> returned (snd w') \<and> frame_events (frames (snd w')) = history state w
           \<and> buf (chan_of state (fst w')) = [] \<and> closed (chan_of state (fst w'))
           \<and> logged (fst w') = logged (fst w)"
  using assms
proof (induction k arbitrary: w)
  case 0
  obtain co conn where w: "w = (co, conn)" by (cases w)
  from 0 show ?case
    by (simp add: w streamLogs_select_def recv_def Let_def attached_def history_def)
next
  case (Suc k)
  obtain co conn where w: "w = (co, conn)" by (cases w)
  show ?case
  proof (cases "buf (chan_of state co)")
    case Nil
    let ?w1 = "(co, conn\<lparr>returned := True\<rparr>)"
    from Suc.prems Nil have "exec_step state execID (StreamSelect False) w = Inr ?w1"
      by (simp add: w streamLogs_select_def recv_def Let_def attached_def)
    moreover have "run state execID (replicate (Suc k) (StreamSelect False)) ?w1 = Inr ?w1"
      by (rule returned_stays) simp
    ultimately show ?thesis
      using Nil Suc.prems(2) by (simp add: w history_def)
  next
    case (Cons e es)
    let ?w1 = "(set_chan state ((chan_of state co)\<lparr>buf := es\<rparr>) co, conn\<lparr>frames := frames conn @ [EventFrame e]\<rparr>)"
    from Suc.prems Cons have s1: "exec_step state execID (StreamSelect False) w = Inr ?w1"
      by (simp add: w streamLogs_select_def recv_def Let_def attached_def)
    from Suc.prems Cons have "\<exists>w'. run state execID (replicate (Suc k) (StreamSelect False)) ?w1 = Inr w'
           \<and> returned (snd w') \<and> frame_events (frames (snd w')) = history state ?w1
           \<and> buf (chan_of state (fst w')) = [] \<and> closed (chan_of state (fst w'))
           \<and> logged (fst w') = logged (fst ?w1)"
      by (intro Suc.IH) (simp_all add: w attached_def)
    moreover from Suc.prems have "history state ?w1 = history state w"
      by (simp add: w history_def attached_def Cons)
    ultimately show ?thesis
      using s1 by (auto simp: w)
  qed
qed

lemma frames_grow:
  assumes "run state execID steps w = Inr w'"
  shows "\<exists>evs. frames (snd w') = frames (snd w) @ map EventFrame evs"
  using assms
proof (induction steps arbitrary: w)
  case Nil
  then show ?case by (auto intro: exI [of _ "[]"])
next
  case (Cons st steps)
  from Cons.prems obtain w1 where s1: "exec_step state execID st w = Inr w1"
    and r1: "run state execID steps w1 = Inr w'"
    by (auto split: sum.splits)
  obtain co conn where w: "w = (co, conn)" by (cases w)
  have "\<exists>evs. frames (snd w1) = frames (snd w) @ map EventFrame evs"
  proof (cases st)
    case (LogCall now level message)
    with s1 show ?thesis by (auto simp: w split: sum.splits intro: exI [of _ "[]"])
  next
    case (ResponseCall err res)
    with s1 show ?thesis by (auto simp: w split: sum.splits intro: exI [of _ "[]"])
  next
    case (StreamSelect ctx_done)
    with s1 show ?thesis
      by (auto simp: w streamLogs_select_def Let_def split: if_splits prod.splits received.splits
            intro: exI [of _ "[]"] exI [of _ "[e]" for e])
  qed
  then obtain evs1 where e1: "frames (snd w1) = frames (snd w) @ map EventFrame evs1" by blast
  from Cons.IH [OF r1] obtain evs2 where "frames (snd w') = frames (snd w1) @ map EventFrame evs2" by blast
  with e1 have "frames (snd w') = frames (snd w) @ map EventFrame (evs1 @ evs2)" by simp
  then show ?case by blast
qed

lemma run_logs:
  assumes "attached state w" and "\<not> closed (chan_of state (fst w))"
  shows "\<exists>w'. run state execID (replicate n (LogCall now level message)) w = Inr w'
           \<and> attached state w' \<and> \<not> closed (chan_of state (fst w'))
           \<and> cap (chan_of state (fst w')) = cap (chan_of state (fst w)) \<and> snd w' = snd w
           \<and> buf (chan_of state (fst w')) = buf (chan_of state (fst w)) @
                replicate (min n (cap (chan_of state (fst w)) - length (buf (chan_of state (fst w)))))
                  (log_event now level message)
           \<and> logged (fst w') = logged (fst w) @
                replicate (n - (cap (chan_of state (fst w)) - length (buf (chan_of state (fst w)))))
                  (''Dropped log for '' @ execID @ '' due to full buffer'')"
  using assms
proof (induction n arbitrary: w)
  case 0
  then show ?case by simp
next
  case (Suc n)
  from producer_returns(1) [OF Suc.prems] obtain w1
    where s1: "exec_step state execID (LogCall now level message) w = Inr w1" by blast
  note obs = LogCall_obs [OF Suc.prems(1) s1]
  from obs have a: "attached state w1" and b: "\<not> closed (chan_of state (fst w1))" by simp_all
  from Suc.IH [OF a b] obtain w' where
    r: "run state execID (replicate n (LogCall now level message)) w1 = Inr w'"
    and p: "attached state w'" "\<not> closed (chan_of state (fst w'))"
      "cap (chan_of state (fst w')) = cap (chan_of state (fst w1))" "snd w' = snd w1"
      "buf (chan_of state (fst w')) = buf (chan_of state (fst w1)) @
                replicate (min n (cap (chan_of state (fst w1)) - length (buf (chan_of state (fst w1)))))
                  (log_event now level message)"
      "logged (fst w') = logged (fst w1) @
                replicate (n - (cap (chan_of state (fst w1)) - length (buf (chan_of state (fst w1)))))
                  (''Dropped log for '' @ execID @ '' due to full buffer'')"
    by blast
  have run: "run state execID (replicate (Suc n) (LogCall now level message)) w = Inr w'"
    using s1 r by simp
  show ?case
  proof (cases "length (buf (chan_of state (fst w))) < cap (chan_of state (fst w))")
    case True
    with obs have "buf (chan_of state (fst w1)) = buf (chan_of state (fst w)) @ [log_event now level message]"
      and "logged (fst w1) = logged (fst w)" and "cap (chan_of state (fst w1)) = cap (chan_of state (fst w))"
      and "snd w1 = snd w"
      by simp_all
    moreover from True have
      "min (Suc n) (cap (chan_of state (fst w)) - length (buf (chan_of state (fst w)))) =
         Suc (min n (cap (chan_of state (fst w)) - Suc (length (buf (chan_of state (fst w))))))"
      "Suc n - (cap (chan_of state (fst w)) - length (buf (chan_of state (fst w)))) =
         n - (cap (chan_of state (fst w)) - Suc (length (buf (chan_of state (fst w)))))"
      by auto
    ultimately show ?thesis
      using run p by (simp add: replicate_app_Cons_same)
  next
    case False
    with obs have "buf (chan_of state (fst w1)) = buf (chan_of state (fst w))"
      and "logged (fst w1) = logged (fst w) @ [''Dropped log for '' @ execID @ '' due to full buffer'']"
      and "cap (chan_of state (fst w1)) = cap (chan_of state (fst w))" and "snd w1 = snd w"
      by simp_all
    moreover from False have
      "cap (chan_of state (fst w)) - length (buf (chan_of state (fst w))) = 0" by simp
    ultimately show ?thesis
      using run p by (simp add: replicate_app_Cons_same)
  qed
qed

lemma new_dispatch:
  "attached 0 (snd (registerExecution execID new_coordinator),
               \<lparr>stream_state = 0, frames = [ConnectedFrame execID], returned = False\<rparr>)"
  "chan_of 0 (snd (registerExecution execID new_coordinator)) = make_chan 1000"
  "logged (snd (registerExecution execID new_coordinator)) = []"
  "registerExecution execID new_coordinator = (0, snd (registerExecution execID new_coordinator))"
  "streamLogs execID True (snd (registerExecution execID new_coordinator)) =
     Inr \<lparr>stream_state = 0, frames = [ConnectedFrame execID], returned = False\<rparr>"
  by (simp_all add: registerExecution_def new_coordinator_def attached_def chan_of_def Let_def
        streamLogs_def getExecution_def)

lemma example_run:
  "\<exists>w. run 0 ''x'' [LogCall ''t'' ''INFO'' ''m'']
          (snd (registerExecution ''x'' new_coordinator),
           \<lparr>stream_state = 0, frames = [ConnectedFrame ''x''], returned = False\<rparr>) = Inr w
        \<and> \<not> closed (chan_of 0 (fst w)) \<and> \<not> returned (snd w)
        \<and> history 0 w = [log_event ''t'' ''INFO'' ''m'']
        \<and> buf (chan_of 0 (fst w)) = [log_event ''t'' ''INFO'' ''m'']"
  by (simp add: registerExecution_def new_coordinator_def logCallback_def try_send_def
        chan_of_def set_chan_def make_chan_def Let_def history_def)

text \<open>
  The stream handler of cmd/coordinator/main.go. A stream request for an id that the
  registry does not hold is answered with status 404. When the registry holds the id (and
  the response writer can flush, as the writers of net/http can), the handler writes the
  connected frame first: whatever the callbacks and the handler do afterwards, the frames
  written are the connected frame followed by frames of events received from the queue.
\<close>

lemma stream_404_or_connected_first:
  "(getExecution execID co = None \<longrightarrow>
      streamLogs execID flusher co = Inl (JSON 404 (Detail ''Execution not found'')))
   \<and> (getExecution execID co = Some state \<and> flusher \<longrightarrow>
        (\<exists>conn. streamLogs execID flusher co = Inr conn \<and> frames conn = [ConnectedFrame execID]
           \<and> (\<forall>steps w'. run state execID steps (co, conn) = Inr w' \<longrightarrow>
                 (\<exists>evs. frames (snd w') = ConnectedFrame execID # map EventFrame evs))))"
proof -
  have "\<exists>evs. frames (snd w') = ConnectedFrame execID # map EventFrame evs"
    if "run state execID steps (co, conn) = Inr w'" and "frames conn = [ConnectedFrame execID]"
    for steps w' conn
    using frames_grow [OF that(1)] that(2) by simp
  then show ?thesis
    by (auto simp: streamLogs_def)
qed

lemma stream_404_or_connected_first_example:
  "getExecution ''y'' (snd (registerExecution ''x'' new_coordinator)) = None
   \<and> streamLogs ''y'' True (snd (registerExecution ''x'' new_coordinator))
       = Inl (JSON 404 (Detail ''Execution not found''))
   \<and> getExecution ''x'' (snd (registerExecution ''x'' new_coordinator)) = Some 0
   \<and> (\<exists>conn. streamLogs ''x'' True (snd (registerExecution ''x'' new_coordinator)) = Inr conn
         \<and> frames conn = [ConnectedFrame ''x''])"
proof -
  have a: "getExecution ''y'' (snd (registerExecution ''x'' new_coordinator)) = None"
    and b: "getExecution ''x'' (snd (registerExecution ''x'' new_coordinator)) = Some 0"
    by (simp_all add: getExecution_def registerExecution_def new_coordinator_def Let_def)
  from stream_404_or_connected_first [where execID = "''y''" and flusher = True
         and co = "snd (registerExecution ''x'' new_coordinator)"] a
  have c: "streamLogs ''y'' True (snd (registerExecution ''x'' new_coordinator))
       = Inl (JSON 404 (Detail ''Execution not found''))"
    by simp
  from stream_404_or_connected_first [where execID = "''x''" and flusher = True and state = 0
         and co = "snd (registerExecution ''x'' new_coordinator)"] b
  have "\<exists>conn. streamLogs ''x'' True (snd (registerExecution ''x'' new_coordinator)) = Inr conn
         \<and> frames conn = [ConnectedFrame ''x'']"
    by blast
  with a b c show ?thesis by simp
qed

text \<open>The older handler keeps the connected frame first, too.\<close>

lemma streamLogs_main_select_connected_first:
  "\<exists>rest. main_written st = MainConnected execID # rest \<Longrightarrow>
   \<exists>rest. main_written (streamLogs_main_select execID client_gone st) = MainConnected execID # rest"
  by (auto simp: streamLogs_main_select_def Let_def recv_def split: list.splits)

text \<open>
  C9. The stream handler of src/coordinator/main.go looks nothing up: for every id,
  whether an execution of that id exists or not, it answers with status 200, never with
  404, subscribes to the two topics of the id, and writes the connected frame first. The
  handler of cmd/coordinator/main.go answers 404 for an id that the registry does not
  hold (\<open>stream_404_or_connected_first\<close> above).
\<close>

theorem streamLogs_main_never_404:
  "main_status (streamLogs_main execID) = 200
   \<and> main_status (streamLogs_main execID) \<noteq> 404
   \<and> main_ops (streamLogs_main execID) =
        [Subscribe (''tinpot/exec/'' @ execID @ ''/log'') 0,
         Subscribe (''tinpot/exec/'' @ execID @ ''/result'') 1, TokenWait, TokenWait]
   \<and> main_written (streamLogs_main execID) = [MainConnected execID]
   \<and> main_written (streamLogs_main ''no-such-id'') = [MainConnected ''no-such-id'']"
  by (simp add: streamLogs_main_def Let_def)

text \<open>
  C1, as the code has it. After any steps of a dispatched execution that end without a
  panic, the events delivered and queued hold at most one complete event, and no
  complete event stands before the last of them; the channel is closed exactly when a
  result callback has run; and on an open channel the result callback returns, closes the
  channel, and queues the complete event as the last event when fewer than 1000 events
  are queued, and queues nothing when the queue is full.
\<close>

theorem at_most_one_complete_last:
  assumes "registerExecution execID co0 = (state, co1)" and "streamLogs execID True co1 = Inr conn0"
    and "run state execID steps (co1, conn0) = Inr w"
  shows "length (of_type ''complete'' (history state w)) \<le> 1
         \<and> of_type ''complete'' (butlast (history state w)) = []
         \<and> (closed (chan_of state (fst w)) \<longleftrightarrow> (\<exists>e r. ResponseCall e r \<in> set steps))
         \<and> (\<not> closed (chan_of state (fst w)) \<longrightarrow>
              (\<exists>w'. exec_step state execID (ResponseCall err res) w = Inr w'
                 \<and> closed (chan_of state (fst w'))
                 \<and> history state w' = history state w @
                      (if length (buf (chan_of state (fst w))) < 1000 then [complete_event err res] else [])))"
proof -
  note init = dispatched_init [OF assms(1,2)]
  have inv: "attached state w \<and> cap (chan_of state (fst w)) = cap (chan_of state (fst (co1, conn0)))
         \<and> of_type ''complete'' (butlast (history state w)) = []
         \<and> (\<not> closed (chan_of state (fst w)) \<longrightarrow> of_type ''complete'' (history state w) = [])
         \<and> (closed (chan_of state (fst w)) \<longleftrightarrow>
              closed (chan_of state (fst (co1, conn0))) \<or> (\<exists>e r. ResponseCall e r \<in> set steps))"
    by (rule run_invariant [OF init(1) assms(3)]) (simp_all add: init(5))
  then have att: "attached state w" and cap: "cap (chan_of state (fst w)) = 1000"
    and closed: "closed (chan_of state (fst w)) \<longleftrightarrow> (\<exists>e r. ResponseCall e r \<in> set steps)"
    and one: "of_type ''complete'' (butlast (history state w)) = []"
    by (simp_all add: init(2) make_chan_def)
  have "\<exists>w'. exec_step state execID (ResponseCall err res) w = Inr w'
                 \<and> closed (chan_of state (fst w'))
                 \<and> history state w' = history state w @
                      (if length (buf (chan_of state (fst w))) < 1000 then [complete_event err res] else [])"
    if "\<not> closed (chan_of state (fst w))"
  proof -
    from producer_returns(2) [OF att that] obtain w'
      where w': "exec_step state execID (ResponseCall err res) w = Inr w'" by blast
    from ResponseCall_obs [OF att w'] cap show ?thesis
      by (auto simp: w' history_def)
  qed
  with one closed at_most_one_of_type [OF one] show ?thesis by blast
qed

theorem at_most_one_complete_last_witness:
  "registerExecution ''x'' new_coordinator = (0, snd (registerExecution ''x'' new_coordinator))
   \<and> streamLogs ''x'' True (snd (registerExecution ''x'' new_coordinator))
       = Inr \<lparr>stream_state = 0, frames = [ConnectedFrame ''x''], returned = False\<rparr>
   \<and> (\<exists>w. run 0 ''x'' [LogCall ''t'' ''INFO'' ''m'']
             (snd (registerExecution ''x'' new_coordinator),
              \<lparr>stream_state = 0, frames = [ConnectedFrame ''x''], returned = False\<rparr>) = Inr w
          \<and> length (of_type ''complete'' (history 0 w)) \<le> 1
          \<and> \<not> closed (chan_of 0 (fst w))
          \<and> (\<exists>w'. exec_step 0 ''x'' (ResponseCall [] None) w = Inr w'
                \<and> closed (chan_of 0 (fst w'))
                \<and> history 0 w' = [log_event ''t'' ''INFO'' ''m'', complete_event [] None]))"
proof -
  from example_run obtain w where
    r: "run 0 ''x'' [LogCall ''t'' ''INFO'' ''m'']
          (snd (registerExecution ''x'' new_coordinator),
           \<lparr>stream_state = 0, frames = [ConnectedFrame ''x''], returned = False\<rparr>) = Inr w"
    and p: "\<not> closed (chan_of 0 (fst w))" "history 0 w = [log_event ''t'' ''INFO'' ''m'']"
      "buf (chan_of 0 (fst w)) = [log_event ''t'' ''INFO'' ''m'']"
    by blast
  from at_most_one_complete_last [OF new_dispatch(4) new_dispatch(5) r, of "[]" None] p
  have "length (of_type ''complete'' (history 0 w)) \<le> 1
          \<and> \<not> closed (chan_of 0 (fst w))
          \<and> (\<exists>w'. exec_step 0 ''x'' (ResponseCall [] None) w = Inr w'
                \<and> closed (chan_of 0 (fst w'))
                \<and> history 0 w' = [log_event ''t'' ''INFO'' ''m'', complete_event [] None])"
    by simp
  with r new_dispatch(4,5) show ?thesis by blast
qed

text \<open>
  The claim as stated fails twice. With 1000 events queued when the result arrives, the
  complete event is dropped: the closed queue holds the 1000 log events and no complete
  event. And a second result callback for the same execution is not dropped: it panics
  with a send on a closed channel.
\<close>

theorem full_queue_and_second_result_counterexample:
  "observe 0 ''x'' (replicate 1000 (LogCall ''t'' ''INFO'' ''m'') @ [ResponseCall [] None])
       (snd (registerExecution ''x'' new_coordinator),
        \<lparr>stream_state = 0, frames = [ConnectedFrame ''x''], returned = False\<rparr>)
     = Inr ([], replicate 1000 (log_event ''t'' ''INFO'' ''m''), True, False, [])
   \<and> observe 0 ''x'' [ResponseCall [] None, ResponseCall [] None]
       (snd (registerExecution ''x'' new_coordinator),
        \<lparr>stream_state = 0, frames = [ConnectedFrame ''x''], returned = False\<rparr>)
     = Inl SendOnClosedChannel"
proof -
  let ?w = "(snd (registerExecution ''x'' new_coordinator),
        \<lparr>stream_state = 0, frames = [ConnectedFrame ''x''], returned = False\<rparr>)"
  have open0: "\<not> closed (chan_of 0 (fst ?w))" by (simp add: new_dispatch(2) make_chan_def)
  from run_logs [OF new_dispatch(1) open0, of "''x''" 1000 "''t''" "''INFO''" "''m''"]
  obtain w1 where r1: "run 0 ''x'' (replicate 1000 (LogCall ''t'' ''INFO'' ''m'')) ?w = Inr w1"
    and a1: "attached 0 w1" and o1: "\<not> closed (chan_of 0 (fst w1))"
    and c1: "cap (chan_of 0 (fst w1)) = 1000" and s1: "snd w1 = snd ?w"
    and b1: "buf (chan_of 0 (fst w1)) = replicate 1000 (log_event ''t'' ''INFO'' ''m'')"
    and l1: "logged (fst w1) = []"
    by (auto simp: new_dispatch(2,3) make_chan_def)
  from producer_returns(2) [OF a1 o1] obtain w2
    where r2: "exec_step 0 ''x'' (ResponseCall [] None) w1 = Inr w2" by blast
  from ResponseCall_obs [OF a1 r2] c1 b1 l1 s1
  have "closed (chan_of 0 (fst w2))" "snd w2 = snd ?w" "logged (fst w2) = []"
    "buf (chan_of 0 (fst w2)) = replicate 1000 (log_event ''t'' ''INFO'' ''m'')"
    by simp_all
  then have first: "observe 0 ''x'' (replicate 1000 (LogCall ''t'' ''INFO'' ''m'') @ [ResponseCall [] None]) ?w
     = Inr ([], replicate 1000 (log_event ''t'' ''INFO'' ''m''), True, False, [])"
    using r1 r2 by (simp add: observe_def run_append)
  from producer_returns(2) [OF new_dispatch(1) open0] obtain w3
    where r3: "exec_step 0 ''x'' (ResponseCall [] None) ?w = Inr w3" by blast
  from ResponseCall_obs [OF new_dispatch(1) r3] have "attached 0 w3" "closed (chan_of 0 (fst w3))"
    by simp_all
  from producer_panics(2) [OF this] r3
  have "observe 0 ''x'' [ResponseCall [] None, ResponseCall [] None] ?w = Inl SendOnClosedChannel"
    by (simp add: observe_def)
  with first show ?thesis by simp
qed

text \<open>
  C2, as the code has it. While the queue of a dispatched execution is open, a log
  callback queues its event when fewer than 1000 events are queued, and otherwise drops
  it and writes one line to the log. When the result arrives and the stream handler is
  still connected, the handler writes every event of the history and returns; the
  complete event is the last event written when fewer than 1000 events were queued at
  the arrival of the result. When the queue was full, the complete event is dropped and
  no line is written to the log for it: the stream ends with no complete event among
  its events, and the log is as it was before the result.
\<close>

theorem complete_delivered_if_room:
  assumes "registerExecution execID co0 = (state, co1)" and "streamLogs execID True co1 = Inr conn0"
    and "run state execID steps (co1, conn0) = Inr w"
    and "\<not> closed (chan_of state (fst w))" and "\<not> returned (snd w)"
    and "length (buf (chan_of state (fst w))) \<le> k"
  shows "(\<exists>w'. exec_step state execID (LogCall now level message) w = Inr w'
            \<and> (if length (buf (chan_of state (fst w))) < 1000
                then history state w' = history state w @ [log_event now level message]
                     \<and> logged (fst w') = logged (fst w)
                else history state w' = history state w
                     \<and> logged (fst w') = logged (fst w) @ [''Dropped log for '' @ execID @ '' due to full buffer'']))
         \<and> of_type ''complete'' (history state w) = []
         \<and> (\<exists>w'. run state execID (ResponseCall err res # replicate (k + 2) (StreamSelect False)) w = Inr w'
            \<and> returned (snd w')
            \<and> closed (chan_of state (fst w')) \<and> buf (chan_of state (fst w')) = []
            \<and> logged (fst w') = logged (fst w)
            \<and> frame_events (frames (snd w')) = history state w @
                 (if length (buf (chan_of state (fst w))) < 1000 then [complete_event err res] else [])
            \<and> of_type ''complete'' (frame_events (frames (snd w'))) =
                 (if length (buf (chan_of state (fst w))) < 1000 then [complete_event err res] else []))"
proof -
  note init = dispatched_init [OF assms(1,2)]
  have inv: "attached state w \<and> cap (chan_of state (fst w)) = cap (chan_of state (fst (co1, conn0)))
         \<and> of_type ''complete'' (butlast (history state w)) = []
         \<and> (\<not> closed (chan_of state (fst w)) \<longrightarrow> of_type ''complete'' (history state w) = [])"
    using run_invariant [OF init(1) assms(3)] by (simp add: init(5))
  then have att: "attached state w" and cap: "cap (chan_of state (fst w)) = 1000"
    by (simp_all add: init(2) make_chan_def)
  from inv assms(4) have none: "of_type ''complete'' (history state w) = []" by simp
  from producer_returns(1) [OF att assms(4)] obtain wl
    where wl: "exec_step state execID (LogCall now level message) w = Inr wl" by blast
  from LogCall_obs [OF att wl] cap
  have logs: "if length (buf (chan_of state (fst w))) < 1000
                then history state wl = history state w @ [log_event now level message]
                     \<and> logged (fst wl) = logged (fst w)
                else history state wl = history state w
                     \<and> logged (fst wl) = logged (fst w) @ [''Dropped log for '' @ execID @ '' due to full buffer'']"
    by (auto simp: history_def split: if_splits)
  from producer_returns(2) [OF att assms(4)] obtain wr
    where wr: "exec_step state execID (ResponseCall err res) w = Inr wr" by blast
  note obs = ResponseCall_obs [OF att wr]
  from obs cap assms(5,6) have "\<exists>w'. run state execID (replicate (Suc (Suc k)) (StreamSelect False)) wr = Inr w'
           \<and> returned (snd w') \<and> frame_events (frames (snd w')) = history state wr
           \<and> buf (chan_of state (fst w')) = [] \<and> closed (chan_of state (fst w'))
           \<and> logged (fst w') = logged (fst wr)"
    by (intro drain) (auto split: if_splits)
  then obtain wd where wd: "run state execID (replicate (Suc (Suc k)) (StreamSelect False)) wr = Inr wd"
    and d: "returned (snd wd)" "frame_events (frames (snd wd)) = history state wr"
      "buf (chan_of state (fst wd)) = []" "closed (chan_of state (fst wd))"
      "logged (fst wd) = logged (fst wr)"
    by blast
  from obs cap have hist: "history state wr = history state w @
                 (if length (buf (chan_of state (fst w))) < 1000 then [complete_event err res] else [])"
    by (auto simp: history_def)
  from obs have lg: "logged (fst wr) = logged (fst w)" by simp
  have r: "run state execID (ResponseCall err res # replicate (k + 2) (StreamSelect False)) w = Inr wd"
    using wr wd by simp
  have ev: "frame_events (frames (snd wd)) = history state w @
                 (if length (buf (chan_of state (fst w))) < 1000 then [complete_event err res] else [])"
    using d(2) hist by simp
  have "of_type ''complete'' (frame_events (frames (snd wd))) =
                 (if length (buf (chan_of state (fst w))) < 1000 then [complete_event err res] else [])"
    using none by (simp add: ev)
  with r d lg ev have "\<exists>w'. run state execID (ResponseCall err res # replicate (k + 2) (StreamSelect False)) w = Inr w'
            \<and> returned (snd w')
            \<and> closed (chan_of state (fst w')) \<and> buf (chan_of state (fst w')) = []
            \<and> logged (fst w') = logged (fst w)
            \<and> frame_events (frames (snd w')) = history state w @
                 (if length (buf (chan_of state (fst w))) < 1000 then [complete_event err res] else [])
            \<and> of_type ''complete'' (frame_events (frames (snd w'))) =
                 (if length (buf (chan_of state (fst w))) < 1000 then [complete_event err res] else [])"
    by auto
  with wl logs none show ?thesis by blast
qed

theorem complete_delivered_if_room_witness:
  "registerExecution ''x'' new_coordinator = (0, snd (registerExecution ''x'' new_coordinator))
   \<and> streamLogs ''x'' True (snd (registerExecution ''x'' new_coordinator))
       = Inr \<lparr>stream_state = 0, frames = [ConnectedFrame ''x''], returned = False\<rparr>
   \<and> (\<exists>w. run 0 ''x'' [LogCall ''t'' ''INFO'' ''m'']
             (snd (registerExecution ''x'' new_coordinator),
              \<lparr>stream_state = 0, frames = [ConnectedFrame ''x''], returned = False\<rparr>) = Inr w
          \<and> \<not> closed (chan_of 0 (fst w)) \<and> \<not> returned (snd w)
          \<and> length (buf (chan_of 0 (fst w))) \<le> 1
          \<and> (\<exists>w'. run 0 ''x'' (ResponseCall [] None # replicate (1 + 2) (StreamSelect False)) w = Inr w'
                \<and> returned (snd w')
                \<and> logged (fst w') = logged (fst w)
                \<and> frame_events (frames (snd w')) = [log_event ''t'' ''INFO'' ''m'', complete_event [] None]))"
proof -
  from example_run obtain w where
    r: "run 0 ''x'' [LogCall ''t'' ''INFO'' ''m'']
          (snd (registerExecution ''x'' new_coordinator),
           \<lparr>stream_state = 0, frames = [ConnectedFrame ''x''], returned = False\<rparr>) = Inr w"
    and p: "\<not> closed (chan_of 0 (fst w))" "\<not> returned (snd w)"
      "history 0 w = [log_event ''t'' ''INFO'' ''m'']"
      "buf (chan_of 0 (fst w)) = [log_event ''t'' ''INFO'' ''m'']"
    by blast
  from p(4) have len: "length (buf (chan_of 0 (fst w))) \<le> 1" by simp
  from complete_delivered_if_room [OF new_dispatch(4) new_dispatch(5) r p(1) p(2) len,
         of "''t''" "''INFO''" "''m''" "[]" None] p(3,4)
  have "\<exists>w'. run 0 ''x'' (ResponseCall [] None # replicate (1 + 2) (StreamSelect False)) w = Inr w'
                \<and> returned (snd w')
                \<and> logged (fst w') = logged (fst w)
                \<and> frame_events (frames (snd w')) = [log_event ''t'' ''INFO'' ''m'', complete_event [] None]"
    by auto
  with r p len new_dispatch(4,5) show ?thesis by blast
qed

text \<open>
  The claim as stated fails for 1001 log lines that arrive before the stream handler
  reads: one line is dropped and logged, the result finds the queue full, and the stream
  ends after the 1000 log events, without a complete event.
\<close>

theorem full_queue_stream_counterexample:
  "observe 0 ''x''
       (replicate 1001 (LogCall ''t'' ''INFO'' ''m'') @ ResponseCall [] None # replicate 1002 (StreamSelect False))
       (snd (registerExecution ''x'' new_coordinator),
        \<lparr>stream_state = 0, frames = [ConnectedFrame ''x''], returned = False\<rparr>)
     = Inr (replicate 1000 (log_event ''t'' ''INFO'' ''m''), [], True, True,
            [''Dropped log for x due to full buffer''])"
proof -
  let ?w = "(snd (registerExecution ''x'' new_coordinator),
        \<lparr>stream_state = 0, frames = [ConnectedFrame ''x''], returned = False\<rparr>)"
  have open0: "\<not> closed (chan_of 0 (fst ?w))" by (simp add: new_dispatch(2) make_chan_def)
  from run_logs [OF new_dispatch(1) open0, of "''x''" 1001 "''t''" "''INFO''" "''m''"]
  obtain w1 where r1: "run 0 ''x'' (replicate 1001 (LogCall ''t'' ''INFO'' ''m'')) ?w = Inr w1"
    and a1: "attached 0 w1" and o1: "\<not> closed (chan_of 0 (fst w1))"
    and c1: "cap (chan_of 0 (fst w1)) = 1000" and s1: "snd w1 = snd ?w"
    and b1: "buf (chan_of 0 (fst w1)) = replicate 1000 (log_event ''t'' ''INFO'' ''m'')"
    and l1: "logged (fst w1) = [''Dropped log for x due to full buffer'']"
    by (auto simp: new_dispatch(2,3) make_chan_def)
  from producer_returns(2) [OF a1 o1] obtain w2
    where r2: "exec_step 0 ''x'' (ResponseCall [] None) w1 = Inr w2" by blast
  from ResponseCall_obs [OF a1 r2] c1 b1 l1 s1
  have p2: "attached 0 w2" "closed (chan_of 0 (fst w2))" "snd w2 = snd ?w"
    "logged (fst w2) = [''Dropped log for x due to full buffer'']"
    "buf (chan_of 0 (fst w2)) = replicate 1000 (log_event ''t'' ''INFO'' ''m'')"
    by simp_all
  then have "\<not> returned (snd w2)" "length (buf (chan_of 0 (fst w2))) \<le> 1001" by simp_all
  from drain [OF p2(1,2) this, of "''x''"] obtain w3
    where r3: "run 0 ''x'' (replicate 1002 (StreamSelect False)) w2 = Inr w3"
      and p3: "returned (snd w3)" "frame_events (frames (snd w3)) = history 0 w2"
        "buf (chan_of 0 (fst w3)) = []" "closed (chan_of 0 (fst w3))" "logged (fst w3) = logged (fst w2)"
    by auto
  from p2 have "history 0 w2 = replicate 1000 (log_event ''t'' ''INFO'' ''m'')"
    by (simp add: history_def)
  with r1 r2 r3 p3 p2(4) show ?thesis
    by (simp add: observe_def run_append)
qed

end
